theory Spec2Isabelle
  imports Complex_Main
begin

section \<open>The HMA service: data model\<close>

text \<open>
  The module computes a 55-period Hull Moving Average over 5-minute candles that it
  fetches from the broker, and keeps the candles of each symbol in a process-wide map.

  Numbers. A JavaScript number that carries a price or an average is a \<open>number\<close>:
  \<open>NaN\<close>, or a real. The arithmetic on the reals is exact, and \<open>NaN\<close> is absorbing as in
  IEEE-754; the rounding of doubles and the infinities are outside the model. A field
  that is missing from a tuple of the broker is \<open>undefined\<close>, which the arithmetic of
  the module turns into \<open>NaN\<close>: it is modelled by \<open>NaN\<close>. Where the code uses a number as
  an epoch time, a length or a loop counter it is an \<open>int\<close> or a \<open>nat\<close>; the hour of an
  invalid \<open>Date\<close>, which is \<open>NaN\<close>, is \<open>None\<close>. \<open>null\<close> in an \<open>hma\<close> field is
  \<open>None\<close>.

  Time. Each \<open>new Date()\<close> of the source is a reading of the clock and is an argument
  of the model, in milliseconds since the epoch. The offset of the local time zone (in
  milliseconds, for a given instant) is an argument \<open>tza\<close>.

  Effects. The cache is passed in and returned. The answer of the broker is an argument;
  a call reports how many times it has asked. Logging is left out: no \<open>console\<close> call
  of the module can throw. A call of \<open>fetchAndCalculateHMA\<close> is one step of the model.
  In the source it is suspended once, at the \<open>await\<close> of line 243; what it writes to
  the cache at line 268 depends on the answer it gets and on nothing that another call
  may have written in between.
\<close>

subsection \<open>Numbers\<close>

datatype number = NaN | Fin real

text \<open>
  \<open>+\<close>, \<open>-\<close>, \<open>*\<close> and \<open>/\<close> of JavaScript on these values. A division by zero gives
  \<open>NaN\<close>: that is what \<open>0 / 0\<close> is, and the loops below divide by zero only when they
  have added nothing up.
\<close>

instantiation number :: "{comm_monoid_add, numeral, minus, times, inverse}"
begin

definition zero_number :: number where
  "zero_number = Fin 0"

definition one_number :: number where
  "one_number = Fin 1"

definition plus_number :: "number \<Rightarrow> number \<Rightarrow> number" where
  "plus_number x y =
     (case x of NaN \<Rightarrow> NaN | Fin a \<Rightarrow> (case y of NaN \<Rightarrow> NaN | Fin b \<Rightarrow> Fin (a + b)))"

definition minus_number :: "number \<Rightarrow> number \<Rightarrow> number" where
  "minus_number x y =
     (case x of NaN \<Rightarrow> NaN | Fin a \<Rightarrow> (case y of NaN \<Rightarrow> NaN | Fin b \<Rightarrow> Fin (a - b)))"

definition times_number :: "number \<Rightarrow> number \<Rightarrow> number" where
  "times_number x y =
     (case x of NaN \<Rightarrow> NaN | Fin a \<Rightarrow> (case y of NaN \<Rightarrow> NaN | Fin b \<Rightarrow> Fin (a * b)))"

definition divide_number :: "number \<Rightarrow> number \<Rightarrow> number" where
  "divide_number x y =
     (case x of
        NaN \<Rightarrow> NaN
      | Fin a \<Rightarrow> (case y of NaN \<Rightarrow> NaN | Fin b \<Rightarrow> if b = 0 then NaN else Fin (a / b)))"

definition inverse_number :: "number \<Rightarrow> number" where
  "inverse_number x = (case x of NaN \<Rightarrow> NaN | Fin b \<Rightarrow> if b = 0 then NaN else Fin (1 / b))"

instance
  by standard
     (auto simp: plus_number_def zero_number_def split: number.splits)

end

subsection \<open>Constants (lines 8 to 15)\<close>

definition HMA_PERIOD :: nat where
  "HMA_PERIOD = 55"

definition REQUIRED_CANDLES :: nat where
  "REQUIRED_CANDLES = 60"

definition MARKET_START_MINUTES :: int where
  "MARKET_START_MINUTES = 555"

definition MARKET_END_MINUTES :: int where
  "MARKET_END_MINUTES = 930"

subsection \<open>Errors\<close>

text \<open>
  Every \<open>throw\<close> of the module is a constructor; \<open>TypeError\<close> is what reading
  \<open>.close\<close> of \<open>undefined\<close> (an index outside the array) raises.
\<close>

datatype error =
    InsufficientData          \<comment> \<open>line 36: fewer than 55 candles\<close>
  | NoAuthToken               \<comment> \<open>line 172: no access token\<close>
  | RequestFailed string      \<comment> \<open>the HTTP request itself was rejected\<close>
  | FetchFailed string        \<comment> \<open>line 201: the broker answered with an error status\<close>
  | NoHistoricalData string   \<comment> \<open>line 246: empty history for the symbol\<close>
  | InsufficientCandles nat   \<comment> \<open>line 255: fewer than 60 candles in trading hours\<close>
  | TypeError

subsection \<open>Candles and HMA points\<close>

text \<open>The broker's tuple \<open>[ts, open, high, low, close, volume]\<close>.\<close>

type_synonym rawCandle = "int \<times> number \<times> number \<times> number \<times> number \<times> number"

text \<open>
  The object built at lines 148 to 157. \<open>date\<close> is the time value of the \<open>Date\<close>
  (\<open>None\<close> for an invalid date), \<open>totalMinutes\<close> is \<open>None\<close> when it is \<open>NaN\<close>.
\<close>

record candle =
  timestamp :: int
  date :: "int option"
  totalMinutes :: "int option"
  "open" :: number
  high :: number
  low :: number
  close :: number
  volume :: number

text \<open>The cached candle of lines 262 to 265: the candle's fields and \<open>hma\<close>.\<close>

record candleWithHMA = candle +
  hma :: "number option"

text \<open>An element of \<open>hmaData\<close> (lines 39 to 43) and of a result's \<open>data\<close> (line 226).\<close>

record hmaPoint =
  timestamp :: int
  close :: number
  hma :: "number option"

section \<open>Weighted moving averages (lines 63 to 133)\<close>

text \<open>\<open>data[k].close\<close>: outside the array \<open>data[k]\<close> is \<open>undefined\<close> and the read throws.\<close>

definition closeAt :: "hmaPoint list \<Rightarrow> int \<Rightarrow> error + number" where
  "closeAt data k =
     (if 0 \<le> k \<and> k < int (length data) then Inr (hmaPoint.close (data ! nat k))
      else Inl TypeError)"

text \<open>
  The accumulation loop. The source has it three times with the same body: lines 73 to
  77 and 85 to 89 in \<open>calculateHMAForPoint\<close>, lines 126 to 130 in \<open>calculateWMA\<close>.
  The result is the pair of the two accumulators.
\<close>

function wmaLoop ::
  "hmaPoint list \<Rightarrow> int \<Rightarrow> nat \<Rightarrow> nat \<Rightarrow> number \<Rightarrow> number \<Rightarrow> error + number \<times> number" where
  "wmaLoop data index period i wma weightSum =
     (if i < period then
        (case closeAt data (index - int i) of
           Inl e \<Rightarrow> Inl e
         | Inr c \<Rightarrow>
             wmaLoop data index period (i + 1)
               (wma + c * Fin (real period - real i)) (weightSum + Fin (real period - real i)))
      else Inr (wma, weightSum))"
  by pat_completeness auto
termination
  by (relation "measure (\<lambda>(data, index, period, i, wma, weightSum). period - i)") auto

declare wmaLoop.simps [simp del]

definition calculateWMA :: "hmaPoint list \<Rightarrow> int \<Rightarrow> nat \<Rightarrow> error + number" where
  "calculateWMA data index period =
     (if index < int period - 1 then Inr 0
      else
        (case wmaLoop data index period 0 0 0 of
           Inl e \<Rightarrow> Inl e
         | Inr (wma, weightSum) \<Rightarrow> Inr (wma / weightSum)))"

text \<open>The smoothing loop of lines 102 to 112, with its \<open>continue\<close>.\<close>

function smoothLoop ::
  "hmaPoint list \<Rightarrow> int \<Rightarrow> nat \<Rightarrow> nat \<Rightarrow> nat \<Rightarrow> nat \<Rightarrow> number \<Rightarrow> number \<Rightarrow>
     error + number \<times> number" where
  "smoothLoop data index period halfPeriod sqrtPeriod i finalHma weightSum3 =
     (if i < sqrtPeriod then
        (let pos = index - int i;
             rawPos = pos - (int period - 1)
         in if rawPos < 0 then
              smoothLoop data index period halfPeriod sqrtPeriod (i + 1) finalHma weightSum3
            else
              (case calculateWMA data pos halfPeriod of
                 Inl e \<Rightarrow> Inl e
               | Inr w1 \<Rightarrow>
                   (case calculateWMA data pos period of
                      Inl e \<Rightarrow> Inl e
                    | Inr w2 \<Rightarrow>
                        smoothLoop data index period halfPeriod sqrtPeriod (i + 1)
                          (finalHma + (2 * w1 - w2) * Fin (real sqrtPeriod - real i))
                          (weightSum3 + Fin (real sqrtPeriod - real i)))))
      else Inr (finalHma, weightSum3))"
  by pat_completeness auto
termination
  by (relation "measure (\<lambda>(data, index, period, halfPeriod, sqrtPeriod, i, finalHma, weightSum3).
        sqrtPeriod - i)") auto

declare smoothLoop.simps [simp del]

definition calculateHMAForPoint :: "hmaPoint list \<Rightarrow> int \<Rightarrow> nat \<Rightarrow> error + number" where
  "calculateHMAForPoint data index period =
     (if index < int period - 1 then Inr 0
      else
        (let halfPeriod = period div 2;
             sqrtPeriod = nat \<lfloor>sqrt (real period)\<rfloor>
         in case wmaLoop data index halfPeriod 0 0 0 of
              Inl e \<Rightarrow> Inl e
            | Inr (wma1, weightSum1) \<Rightarrow>
                (case wmaLoop data index period 0 0 0 of
                   Inl e \<Rightarrow> Inl e
                 | Inr (wma2, weightSum2) \<Rightarrow>
                     (let rawHma = 2 * (wma1 / weightSum1) - wma2 / weightSum2
                      in if index < int period + int sqrtPeriod - 2 then Inr rawHma
                         else
                           (case smoothLoop data index period halfPeriod sqrtPeriod 0 0 0 of
                              Inl e \<Rightarrow> Inl e
                            | Inr (finalHma, weightSum3) \<Rightarrow> Inr (finalHma / weightSum3))))))"

section \<open>The HMA series of a candle sequence (lines 34 to 58)\<close>

text \<open>
  The loop of lines 46 to 48. It writes \<open>hmaData[i].hma\<close> in place, and each call of
  \<open>calculateHMAForPoint\<close> reads the array as the earlier iterations have left it.
\<close>

function hmaLoop :: "hmaPoint list \<Rightarrow> nat \<Rightarrow> error + hmaPoint list" where
  "hmaLoop hmaData i =
     (if i < length hmaData then
        (case calculateHMAForPoint hmaData (int i) HMA_PERIOD of
           Inl e \<Rightarrow> Inl e
         | Inr v \<Rightarrow> hmaLoop (hmaData[i := (hmaData ! i)\<lparr>hmaPoint.hma := Some v\<rparr>]) (i + 1))
      else Inr hmaData)"
  by pat_completeness auto
termination
  by (relation "measure (\<lambda>(hmaData, i). length hmaData - i)") auto

declare hmaLoop.simps [simp del]

text \<open>
  \<open>x || 0\<close> for \<open>x\<close> a number, \<open>null\<close> or \<open>undefined\<close>: \<open>null\<close> and \<open>undefined\<close> (here
  \<open>None\<close>), \<open>NaN\<close> and \<open>0\<close> are falsy and give \<open>0\<close>; any other number is returned.
\<close>

definition orZero :: "number option \<Rightarrow> number" where
  "orZero x =
     (case x of
        None \<Rightarrow> 0
      | Some NaN \<Rightarrow> 0
      | Some (Fin v) \<Rightarrow> if v = 0 then 0 else Fin v)"

text \<open>\<open>hmaData[hmaData.length - 1]?.hma\<close>: \<open>undefined\<close> (here \<open>None\<close>) on an empty array.\<close>

definition lastHma :: "hmaPoint list \<Rightarrow> number option" where
  "lastHma hmaData = (if hmaData = [] then None else hmaPoint.hma (hmaData ! (length hmaData - 1)))"

definition toHmaPoint :: "'a candle_scheme \<Rightarrow> hmaPoint" where
  "toHmaPoint c =
     \<lparr>hmaPoint.timestamp = candle.timestamp c, close = candle.close c, hma = Some 0\<rparr>"

text \<open>The object returned at lines 52 to 57 and at lines 224 to 229.\<close>

record hmaResult =
  period :: nat
  data :: "hmaPoint list"
  currentHMA :: "number option"
  lastUpdate :: int

text \<open>\<open>now\<close> is the clock reading of line 56.\<close>

definition calculateHMAFromCandles :: "'a candle_scheme list \<Rightarrow> int \<Rightarrow> error + hmaResult" where
  "calculateHMAFromCandles candles now =
     (if length candles < HMA_PERIOD then Inl InsufficientData
      else
        (case hmaLoop (map toHmaPoint candles) (HMA_PERIOD - 1) of
           Inl e \<Rightarrow> Inl e
         | Inr hmaData \<Rightarrow>
             Inr \<lparr>period = HMA_PERIOD, data = hmaData,
                  currentHMA = Some (orZero (lastHma hmaData)),
                  lastUpdate = now\<rparr>))"

section \<open>Candle conversion and the trading-hours filter (lines 138 to 164)\<close>

text \<open>
  \<open>new Date(ms)\<close>: a time value beyond 8.64e15 milliseconds on either side of the epoch
  gives an invalid date.
\<close>

definition newDate :: "int \<Rightarrow> int option" where
  "newDate ms = (if \<bar>ms\<bar> \<le> 8640000000000000 then Some ms else None)"

text \<open>
  \<open>getHours\<close> and \<open>getMinutes\<close> read the local time \<open>t + tza t\<close>; on an invalid date
  they return \<open>NaN\<close>.
\<close>

definition getHours :: "(int \<Rightarrow> int) \<Rightarrow> int option \<Rightarrow> int option" where
  "getHours tza d = (case d of None \<Rightarrow> None | Some t \<Rightarrow> Some (((t + tza t) div 3600000) mod 24))"

definition getMinutes :: "(int \<Rightarrow> int) \<Rightarrow> int option \<Rightarrow> int option" where
  "getMinutes tza d = (case d of None \<Rightarrow> None | Some t \<Rightarrow> Some (((t + tza t) div 60000) mod 60))"

text \<open>\<open>hours * 60 + minutes\<close>, which is \<open>NaN\<close> as soon as one operand is.\<close>

definition totalMinutesOf :: "int option \<Rightarrow> int option \<Rightarrow> int option" where
  "totalMinutesOf hours minutes =
     (case hours of
        None \<Rightarrow> None
      | Some h \<Rightarrow> (case minutes of None \<Rightarrow> None | Some m \<Rightarrow> Some (h * 60 + m)))"

text \<open>The function mapped at lines 140 to 158.\<close>

definition toCandle :: "(int \<Rightarrow> int) \<Rightarrow> rawCandle \<Rightarrow> candle" where
  "toCandle tza raw =
     (case raw of (ts, opn, hi, lo, cl, vol) \<Rightarrow>
        (let date = newDate (ts * 1000);
             hours = getHours tza date;
             minutes = getMinutes tza date
         in \<lparr>candle.timestamp = ts, date = date, totalMinutes = totalMinutesOf hours minutes,
              open = opn, high = hi, low = lo, close = cl, volume = vol\<rparr>))"

text \<open>The predicate of lines 159 to 163; a comparison with \<open>NaN\<close> is false.\<close>

definition inTradingHours :: "'a candle_scheme \<Rightarrow> bool" where
  "inTradingHours c =
     (case totalMinutes c of
        None \<Rightarrow> False
      | Some m \<Rightarrow> m \<ge> MARKET_START_MINUTES \<and> m \<le> MARKET_END_MINUTES)"

definition convertAndFilterTradingHoursCandles :: "(int \<Rightarrow> int) \<Rightarrow> rawCandle list \<Rightarrow> candle list" where
  "convertAndFilterTradingHoursCandles tza historicalData =
     filter inTradingHours (map (toCandle tza) historicalData)"

section \<open>Fetching the history (lines 169 to 207)\<close>

text \<open>
  The body of the broker's answer, \<open>response.data\<close>. A field that is absent is \<open>None\<close>.
\<close>

record response =
  s :: string
  candles :: "rawCandle list option"
  message :: "string option"

text \<open>
  What \<open>await axios.get(...)\<close> gives: the promise is rejected, or it resolves to a
  response. The request (symbol, resolution, date range and token) decides which; that
  dependency belongs to the broker, so the outcome is an argument of the model and the
  formatting of the date range (lines 20 to 29 and 233 to 238) is not modelled.
\<close>

datatype httpResult = Rejected string | Resolved response

text \<open>
  A string is falsy when it is empty; a missing argument (\<open>undefined\<close>) is falsy too and
  is modelled by the empty string.
\<close>

definition truthy :: "string \<Rightarrow> bool" where
  "truthy str = (str \<noteq> [])"

text \<open>The \<open>catch\<close> of lines 203 to 206 logs the error and throws the same error again.\<close>

definition fetchHistoricalData :: "string \<Rightarrow> httpResult \<Rightarrow> error + rawCandle list" where
  "fetchHistoricalData accessToken http =
     (if \<not> truthy accessToken then Inl NoAuthToken
      else
        (case http of
           Rejected msg \<Rightarrow> Inl (RequestFailed msg)
         | Resolved resp \<Rightarrow>
             (if s resp = ''ok'' \<and> response.candles resp \<noteq> None
              then Inr (the (response.candles resp))
              else if s resp = ''no_data'' then Inr []
              else
                Inl (FetchFailed
                  (case message resp of
                     None \<Rightarrow> ''Failed to fetch historical data''
                   | Some m \<Rightarrow> if truthy m then m else ''Failed to fetch historical data'')))))"

section \<open>The cache and the entry point (lines 212 to 311)\<close>

text \<open>The value stored in \<open>candleCache\<close> (lines 268 to 273).\<close>

record cacheEntry =
  candles :: "candleWithHMA list"
  lastUpdate :: int
  symbol :: string
  isLiveMonitoring :: bool

type_synonym candleCache = "string \<rightharpoonup> cacheEntry"

text \<open>\<open>new Map()\<close> at line 5.\<close>

definition emptyCache :: candleCache where
  "emptyCache = Map.empty"

text \<open>
  What a call reads from outside the module: the clock at line 218 (\<open>now\<close>), at line 56
  (\<open>tCalc\<close>) and at line 270 (\<open>tStore\<close>), the outcome of the HTTP request, and the
  time zone of the host.
\<close>

record env =
  now :: int
  tCalc :: int
  tStore :: int
  http :: httpResult
  tza :: "int \<Rightarrow> int"

text \<open>
  What a call leaves behind: the value returned or the error thrown, the cache, and the
  number of calls of \<open>fetchHistoricalData\<close> it has made.
\<close>

record outcome =
  result :: "error + hmaResult"
  cacheAfter :: candleCache
  fetchCalls :: nat

text \<open>\<open>data[index].hma\<close>, which throws when \<open>data[index]\<close> is \<open>undefined\<close>.\<close>

definition hmaAt :: "hmaPoint list \<Rightarrow> nat \<Rightarrow> error + number option" where
  "hmaAt points index =
     (if index < length points then Inr (hmaPoint.hma (points ! index)) else Inl TypeError)"

text \<open>
  The \<open>map\<close> of lines 262 to 265 over the candles from position \<open>index\<close> on: the candle's
  own fields and \<open>hma\<close>, which is \<open>null\<close> below \<open>HMA_PERIOD - 1\<close>.
\<close>

fun candlesWithHMA :: "hmaPoint list \<Rightarrow> candle list \<Rightarrow> nat \<Rightarrow> error + candleWithHMA list" where
  "candlesWithHMA points [] index = Inr []"
| "candlesWithHMA points (c # cs) index =
     (case (if index \<ge> HMA_PERIOD - 1 then hmaAt points index else Inr None) of
        Inl e \<Rightarrow> Inl e
      | Inr h \<Rightarrow>
          (case candlesWithHMA points cs (index + 1) of
             Inl e \<Rightarrow> Inl e
           | Inr rest \<Rightarrow>
               Inr (\<lparr>candle.timestamp = candle.timestamp c, date = date c,
                      totalMinutes = totalMinutes c, open = candle.open c, high = high c,
                      low = low c, close = candle.close c, volume = volume c,
                      candleWithHMA.hma = h\<rparr> # rest)))"

text \<open>The point built from a cached candle at line 226.\<close>

definition cachedPoint :: "candleWithHMA \<Rightarrow> hmaPoint" where
  "cachedPoint c =
     \<lparr>hmaPoint.timestamp = candle.timestamp c, close = candle.close c,
      hma = candleWithHMA.hma c\<rparr>"

text \<open>The object returned at lines 224 to 229.\<close>

definition cachedResult :: "cacheEntry \<Rightarrow> hmaResult" where
  "cachedResult cached =
     \<lparr>period = HMA_PERIOD,
      data = map cachedPoint (cacheEntry.candles cached),
      currentHMA =
        candleWithHMA.hma (cacheEntry.candles cached ! (length (cacheEntry.candles cached) - 1)),
      lastUpdate = cacheEntry.lastUpdate cached\<rparr>"

text \<open>Lines 232 to 277: the path taken when the cache does not answer.\<close>

definition fetchAndStore :: "env \<Rightarrow> candleCache \<Rightarrow> string \<Rightarrow> string \<Rightarrow> outcome" where
  "fetchAndStore e cache symb accessToken =
     (case fetchHistoricalData accessToken (http e) of
        Inl err \<Rightarrow> \<lparr>result = Inl err, cacheAfter = cache, fetchCalls = 1\<rparr>
      | Inr historicalData \<Rightarrow>
          (if historicalData = [] then
             \<lparr>result = Inl (NoHistoricalData symb), cacheAfter = cache, fetchCalls = 1\<rparr>
           else
             (let cs = convertAndFilterTradingHoursCandles (tza e) historicalData
              in if length cs < REQUIRED_CANDLES then
                   \<lparr>result = Inl (InsufficientCandles (length cs)), cacheAfter = cache,
                    fetchCalls = 1\<rparr>
                 else
                   (case calculateHMAFromCandles cs (tCalc e) of
                      Inl err \<Rightarrow> \<lparr>result = Inl err, cacheAfter = cache, fetchCalls = 1\<rparr>
                    | Inr hmaConfig \<Rightarrow>
                        (case candlesWithHMA (data hmaConfig) cs 0 of
                           Inl err \<Rightarrow> \<lparr>result = Inl err, cacheAfter = cache, fetchCalls = 1\<rparr>
                         | Inr withHMA \<Rightarrow>
                             \<lparr>result = Inr hmaConfig,
                              cacheAfter = cache(symb \<mapsto>
                                \<lparr>candles = withHMA, lastUpdate = tStore e, symbol = symb,
                                 isLiveMonitoring = False\<rparr>),
                              fetchCalls = 1\<rparr>)))))"

text \<open>The test of lines 220 to 222 on the entry found for the symbol.\<close>

definition usable :: "cacheEntry \<Rightarrow> int \<Rightarrow> bool" where
  "usable cached t =
     (length (cacheEntry.candles cached) \<ge> REQUIRED_CANDLES \<and>
      t - cacheEntry.lastUpdate cached < 5 * 60 * 1000)"

definition fetchAndCalculateHMA :: "env \<Rightarrow> candleCache \<Rightarrow> string \<Rightarrow> string \<Rightarrow> outcome" where
  "fetchAndCalculateHMA e cache symb accessToken =
     (case cache symb of
        None \<Rightarrow> fetchAndStore e cache symb accessToken
      | Some cached \<Rightarrow>
          (if usable cached (now e) then
             \<lparr>result = Inr (cachedResult cached), cacheAfter = cache, fetchCalls = 0\<rparr>
           else fetchAndStore e cache symb accessToken))"

text \<open>Lines 304 to 311: the cache after the call and the value returned.\<close>

definition clearCache :: "candleCache \<Rightarrow> string \<Rightarrow> candleCache \<times> bool" where
  "clearCache cache symb = (if truthy symb then (cache(symb := None), True) else (cache, False))"

text \<open>
  The cache states that the module can be in: it starts empty, and only
  \<open>fetchAndCalculateHMA\<close> and \<open>clearCache\<close> write to it.
\<close>

inductive reachable :: "candleCache \<Rightarrow> bool" where
  initial: "reachable emptyCache"
| fetched: "reachable cache \<Longrightarrow> reachable (cacheAfter (fetchAndCalculateHMA e cache symb accessToken))"
| cleared: "reachable cache \<Longrightarrow> reachable (fst (clearCache cache symb))"

section \<open>The notions of the specification\<close>

subsection \<open>The series\<close>

text \<open>
  The definitions of this section follow the words of the specification and not the
  code; the theorems compare the two. The series is described over the list of the
  closing prices: the weighted average of the closes at \<open>idx\<close>, \<open>idx - 1\<close>, ...,
  \<open>idx - n + 1\<close> with the weights \<open>n\<close>, \<open>n - 1\<close>, ..., \<open>1\<close>, divided by
  \<open>n * (n + 1) / 2\<close> (and 0 where \<open>idx < n - 1\<close>); the unsmoothed value
  \<open>2 * WMA(i, 27) - WMA(i, 55)\<close>; its 7-point weighted average. The arithmetic is that of
  \<open>number\<close>: an average over a \<open>NaN\<close> close is \<open>NaN\<close>.
\<close>

definition spec_WMA :: "number list \<Rightarrow> nat \<Rightarrow> nat \<Rightarrow> number" where
  "spec_WMA closes idx n =
     (if idx + 1 < n then 0
      else (\<Sum>k\<leftarrow>[0..<n]. closes ! (idx - k) * Fin (real (n - k))) /
           Fin (real (n * (n + 1)) / 2))"

definition spec_rawHMA :: "number list \<Rightarrow> nat \<Rightarrow> number" where
  "spec_rawHMA closes i = 2 * spec_WMA closes i 27 - spec_WMA closes i 55"

definition spec_smoothedHMA :: "number list \<Rightarrow> nat \<Rightarrow> number" where
  "spec_smoothedHMA closes i =
     (\<Sum>k\<leftarrow>[0..<7]. spec_rawHMA closes (i - k) * Fin (real (7 - k))) /
     Fin (real (7 * (7 + 1)) / 2)"

text \<open>The three ranges of the index: warm-up, unsmoothed, smoothed.\<close>

definition spec_HMA :: "number list \<Rightarrow> nat \<Rightarrow> number" where
  "spec_HMA closes i =
     (if i < 54 then 0 else if i < 60 then spec_rawHMA closes i else spec_smoothedHMA closes i)"

subsection \<open>The session\<close>

text \<open>
  The minute of the day of a tuple, in the specification's words: the hour and the minute
  of the local wall clock at the tuple's timestamp, \<open>hour * 60 + minute\<close>; a tuple is
  in session when it lies in \<open>[555, 930]\<close>. A timestamp that no \<open>Date\<close> can hold (more
  than 8.64e15 milliseconds from the epoch) has no wall-clock time.
\<close>

definition spec_minuteOfDay :: "(int \<Rightarrow> int) \<Rightarrow> int \<Rightarrow> int option" where
  "spec_minuteOfDay z ts =
     (let t = ts * 1000;
          hour = ((t + z t) div 3600000) mod 24;
          minute = ((t + z t) div 60000) mod 60
      in if \<bar>t\<bar> \<le> 8640000000000000 then Some (hour * 60 + minute) else None)"

definition spec_inSession :: "(int \<Rightarrow> int) \<Rightarrow> rawCandle \<Rightarrow> bool" where
  "spec_inSession z raw =
     (case spec_minuteOfDay z (fst raw) of
        None \<Rightarrow> False
      | Some minuteOfDay \<Rightarrow> 555 \<le> minuteOfDay \<and> minuteOfDay \<le> 930)"

text \<open>The tuple that a candle was converted from.\<close>

definition rawOf :: "candle \<Rightarrow> rawCandle" where
  "rawOf c = (candle.timestamp c, candle.open c, high c, low c, candle.close c, volume c)"

subsection \<open>Freshness and the stored entries\<close>

text \<open>
  Freshness, in the specification's words: an entry is fresh iff \<open>now - lastUpdate\<close> is
  less than 5 minutes and it holds at least 60 candles. A symbol without an entry has no
  fresh entry.
\<close>

definition spec_fresh :: "candleCache \<Rightarrow> string \<Rightarrow> int \<Rightarrow> bool" where
  "spec_fresh cache symb t =
     (case cache symb of
        None \<Rightarrow> False
      | Some entry \<Rightarrow>
          t - cacheEntry.lastUpdate entry < 5 * 60 * 1000 \<and> 60 \<le> length (cacheEntry.candles entry))"

text \<open>
  What lines 262 to 265 are to store for the candles \<open>cs\<close> and the result \<open>r\<close>: one
  cached candle per candle, with the candle's own fields, and with \<open>hma\<close> equal to \<open>null\<close>
  below index 54 and to the \<open>hma\<close> of the result's point from index 54 on.
\<close>

definition stored :: "candle list \<Rightarrow> hmaResult \<Rightarrow> candleWithHMA list \<Rightarrow> bool" where
  "stored cs r w =
     (length w = length cs \<and>
      (\<forall>j<length cs. candle.truncate (w ! j) = cs ! j \<and>
         candleWithHMA.hma (w ! j) = (if j < 54 then None else hmaPoint.hma (data r ! j))))"

text \<open>
  The invariant of the stored entries: at least 60 candles, \<open>hma = null\<close> below index 54,
  and from index 54 on the value that the three ranges above give for the entry's own
  closes.
\<close>

definition entryInvariant :: "cacheEntry \<Rightarrow> bool" where
  "entryInvariant entry =
     (60 \<le> length (cacheEntry.candles entry) \<and>
      (\<forall>i<length (cacheEntry.candles entry).
         candleWithHMA.hma (cacheEntry.candles entry ! i) =
           (if i < 54 then None
            else Some (spec_HMA (map candle.close (cacheEntry.candles entry)) i))))"

section \<open>Example inputs\<close>

text \<open>
  Indian Standard Time, five and a half hours ahead of UTC, and \<open>n\<close> five-minute
  candles starting at 09:15 of 14 November 2023 in that zone, candle \<open>k\<close> closing at
  \<open>price k\<close>.
\<close>

definition ist :: "int \<Rightarrow> int" where
  "ist t = 19800000"

definition exampleRaw :: "nat \<Rightarrow> (nat \<Rightarrow> number) \<Rightarrow> rawCandle list" where
  "exampleRaw n price =
     map (\<lambda>k. (1699933500 + 300 * int k, price k, price k, price k, price k, 1000)) [0..<n]"

definition rampPrice :: "nat \<Rightarrow> number" where
  "rampPrice k = Fin (100 + real k)"

definition dropPrice :: "nat \<Rightarrow> number" where
  "dropPrice k = (if k < 28 then Fin 139 else Fin 29)"

text \<open>The ramp when the tuple of candle 60 has come without its close.\<close>

definition gapPrice :: "nat \<Rightarrow> number" where
  "gapPrice k = (if k = 60 then NaN else Fin (100 + real k))"

definition exampleCandles :: "nat \<Rightarrow> (nat \<Rightarrow> number) \<Rightarrow> candle list" where
  "exampleCandles n price = map (toCandle ist) (exampleRaw n price)"

text \<open>
  Six tuples around the edges of the session in that zone: 09:14, 09:15, 15:30, 15:31,
  then 09:20 (out of order), then a timestamp beyond the range of \<open>Date\<close>.
\<close>

definition edgeRaw :: "rawCandle list" where
  "edgeRaw =
     [(1699933440, 1, 2, 0, 1, 10),
      (1699933500, 2, 3, 1, 2, 20),
      (1699956000, 3, 4, 2, 3, 30),
      (1699956060, 4, 5, 3, 4, 40),
      (1699933800, 5, 6, 4, 5, 50),
      (8640000000001, 6, 7, 5, 6, 60)]"

text \<open>
  A first call on the empty cache, answered by the broker with 61 candles, whose entry
  is written at \<open>1699951800000\<close> (14:20 in that zone); and a later call for the same
  symbol, \<open>ms\<close> milliseconds after that write.
\<close>

definition exampleSymbol :: string where
  "exampleSymbol = ''NSE:NIFTY50-INDEX''"

definition exampleToken :: string where
  "exampleToken = ''app:token''"

definition okResponse :: "nat \<Rightarrow> (nat \<Rightarrow> number) \<Rightarrow> httpResult" where
  "okResponse n price =
     Resolved \<lparr>s = ''ok'', candles = Some (exampleRaw n price), message = None\<rparr>"

definition exampleEnv :: "int \<Rightarrow> httpResult \<Rightarrow> env" where
  "exampleEnv t answer =
     \<lparr>now = t, tCalc = t + 250, tStore = t + 251, http = answer, tza = ist\<rparr>"

definition firstCall :: "(nat \<Rightarrow> number) \<Rightarrow> outcome" where
  "firstCall price =
     fetchAndCalculateHMA (exampleEnv 1699951799749 (okResponse 61 price)) emptyCache
       exampleSymbol exampleToken"

definition laterCall :: "(nat \<Rightarrow> number) \<Rightarrow> int \<Rightarrow> httpResult \<Rightarrow> outcome" where
  "laterCall price ms answer =
     fetchAndCalculateHMA (exampleEnv (1699951800000 + ms) answer)
       (cacheAfter (firstCall price)) exampleSymbol exampleToken"

text \<open>
  A cache whose entry holds no candle (the module never writes one), and two answers of
  the broker without candles.
\<close>

definition shortCache :: candleCache where
  "shortCache =
     emptyCache(exampleSymbol \<mapsto>
       \<lparr>candles = [], lastUpdate = 1699951800000, symbol = exampleSymbol,
        isLiveMonitoring = False\<rparr>)"

definition noDataResponse :: httpResult where
  "noDataResponse = Resolved \<lparr>s = ''no_data'', candles = None, message = None\<rparr>"

definition errorResponse :: httpResult where
  "errorResponse = Resolved \<lparr>s = ''error'', candles = None, message = Some ''Invalid token''\<rparr>"

text \<open>The \<open>hma\<close> values of a result, for stating examples.\<close>

definition hmaValues :: "error + hmaResult \<Rightarrow> error + number option list" where
  "hmaValues res = (case res of Inl e \<Rightarrow> Inl e | Inr r \<Rightarrow> Inr (map hmaPoint.hma (data r)))"

text \<open>The \<open>hma\<close> of point \<open>i\<close> of a result.\<close>

definition hmaOf :: "error + hmaResult \<Rightarrow> nat \<Rightarrow> error + number option" where
  "hmaOf res i = (case res of Inl e \<Rightarrow> Inl e | Inr r \<Rightarrow> hmaAt (data r) i)"

text \<open>The \<open>currentHMA\<close> of a result.\<close>

definition currentHMAOf :: "error + hmaResult \<Rightarrow> error + number option" where
  "currentHMAOf res = (case res of Inl e \<Rightarrow> Inl e | Inr r \<Rightarrow> Inr (currentHMA r))"

section \<open>The arithmetic of numbers\<close>

lemma number_arith [simp]:
  "Fin a + Fin b = Fin (a + b)" "NaN + x = NaN" "x + NaN = NaN"
  "Fin a - Fin b = Fin (a - b)" "NaN - x = NaN" "x - NaN = NaN"
  "Fin a * Fin b = Fin (a * b)" "NaN * x = NaN" "x * NaN = NaN"
  "Fin a / Fin b = (if b = 0 then NaN else Fin (a / b))" "NaN / x = NaN" "x / NaN = NaN"
  by (simp_all add: plus_number_def minus_number_def times_number_def divide_number_def
        split: number.splits)

lemma zero_number: "(0 :: number) = Fin 0"
  by (simp add: zero_number_def)

lemma numeral_number: "(numeral n :: number) = Fin (numeral n)"
  by (induction n) (simp_all only: numeral.simps one_number_def number_arith)

lemma sum_list_Fin: "(\<Sum>x\<leftarrow>xs. Fin (f x)) = Fin (\<Sum>x\<leftarrow>xs. f x)"
  by (induction xs) (simp_all add: zero_number)

lemma orZero_Some: "orZero (Some x) = (if x = NaN then 0 else x)"
  by (simp add: orZero_def zero_number split: number.splits)

section \<open>The loops in closed form\<close>

lemma wmaLoop_sum:
  assumes "int n - 1 \<le> idx" "idx < int (length d)"
  shows "wmaLoop d idx n i wma ws =
     Inr (wma + (\<Sum>k\<leftarrow>[i..<n]. hmaPoint.close (d ! nat (idx - int k)) * Fin (real n - real k)),
          ws + (\<Sum>k\<leftarrow>[i..<n]. Fin (real n - real k)))"
  using assms
proof (induction d idx n i wma ws rule: wmaLoop.induct)
  case (1 d idx n i wma ws)
  show ?case
  proof (cases "i < n")
    case True
    then have c: "closeAt d (idx - int i) = Inr (hmaPoint.close (d ! nat (idx - int i)))"
      using "1.prems" by (simp add: closeAt_def)
    show ?thesis
      using True "1.IH"[OF True c] "1.prems"
      by (subst wmaLoop.simps) (simp add: c upt_conv_Cons add.assoc)
  next
    case False
    then show ?thesis by (subst wmaLoop.simps) simp
  qed
qed

lemma weight_sum_gen: "(\<Sum>k\<leftarrow>[0..<n]. m - real k) = real n * m - real n * (real n - 1) / 2"
  by (induction n) (simp_all add: field_simps)

lemma weight_sum: "(\<Sum>k\<leftarrow>[0..<n]. real n - real k) = real (n * (n + 1)) / 2"
  by (simp add: weight_sum_gen field_simps)

lemma weight_sum_Fin: "(\<Sum>k\<leftarrow>[0..<n]. Fin (real n - real k)) = Fin (real (n * (n + 1)) / 2)"
  by (simp only: sum_list_Fin weight_sum)

lemma wmaLoop_spec:
  assumes "n - 1 \<le> idx" "idx < length d" "0 < n"
  shows "\<exists>s w. wmaLoop d (int idx) n 0 0 0 = Inr (s, w) \<and>
           s / w = spec_WMA (map hmaPoint.close d) idx n"
proof -
  let ?s = "\<Sum>k\<leftarrow>[0..<n]. map hmaPoint.close d ! (idx - k) * Fin (real (n - k))"
  have "(\<Sum>k\<leftarrow>[0..<n]. hmaPoint.close (d ! nat (int idx - int k)) * Fin (real n - real k)) = ?s"
    using assms by (intro arg_cong[where f=sum_list] map_cong) (auto simp: nat_diff_distrib')
  then have "wmaLoop d (int idx) n 0 0 0 = Inr (?s, Fin (real (n * (n + 1)) / 2))"
    using assms wmaLoop_sum[of n "int idx" d 0 0 0] by (simp add: weight_sum_Fin)
  moreover have "\<not> idx + 1 < n" using assms by arith
  then have "?s / Fin (real (n * (n + 1)) / 2) = spec_WMA (map hmaPoint.close d) idx n"
    by (simp only: spec_WMA_def if_False)
  ultimately show ?thesis by blast
qed

lemma calculateWMA_spec:
  assumes "n - 1 \<le> idx" "idx < length d" "0 < n"
  shows "calculateWMA d (int idx) n = Inr (spec_WMA (map hmaPoint.close d) idx n)"
  using wmaLoop_spec[OF assms] assms by (auto simp: calculateWMA_def)

lemma smoothLoop_sum:
  assumes "60 \<le> idx" "idx < length d"
  shows "smoothLoop d (int idx) 55 27 7 i f w =
     Inr (f + (\<Sum>k\<leftarrow>[i..<7]. spec_rawHMA (map hmaPoint.close d) (idx - k) * Fin (7 - real k)),
          w + (\<Sum>k\<leftarrow>[i..<7]. Fin (7 - real k)))"
proof (induction "7 - i" arbitrary: i f w)
  case 0
  then show ?case by (subst smoothLoop.simps) simp
next
  case (Suc m)
  then have i: "i < 7" by simp
  then have r: "54 \<le> idx - i" "idx - i < length d" "i \<le> idx"
    using assms by simp_all
  have w1: "calculateWMA d (int idx - int i) 27 = Inr (spec_WMA (map hmaPoint.close d) (idx - i) 27)"
    using calculateWMA_spec[of 27 "idx - i" d] r by simp
  have w2: "calculateWMA d (int idx - int i) 55 = Inr (spec_WMA (map hmaPoint.close d) (idx - i) 55)"
    using calculateWMA_spec[of 55 "idx - i" d] r by simp
  have m: "m = 7 - (i + 1)" using Suc.hyps(2) by simp
  have u: "[i..<7] = i # [i + 1..<7]" using i by (simp add: upt_conv_Cons)
  have p: "\<not> int idx - int i - (int 55 - 1) < 0" using r by simp
  show ?case
    by (subst smoothLoop.simps)
       (simp only: i if_True Let_def p if_False w1 w2 sum.case Suc.hyps(1)[OF m] u
          list.map sum_list.Cons spec_rawHMA_def, simp add: add.assoc)
qed

lemma floor_sqrt_55: "\<lfloor>sqrt 55\<rfloor> = 7"
proof -
  have "7 \<le> sqrt 55" by (rule real_le_rsqrt) simp
  moreover have "sqrt 55 < 8" by (rule real_less_lsqrt) simp_all
  ultimately show ?thesis by (simp add: floor_eq_iff)
qed

lemma calculateHMAForPoint_spec:
  assumes "idx < length d"
  shows "calculateHMAForPoint d (int idx) 55 = Inr (spec_HMA (map hmaPoint.close d) idx)"
proof (cases "idx < 54")
  case True
  then show ?thesis by (simp add: calculateHMAForPoint_def spec_HMA_def)
next
  case False
  obtain s1 w1 where l1: "wmaLoop d (int idx) 27 0 0 0 = Inr (s1, w1)"
      and q1: "s1 / w1 = spec_WMA (map hmaPoint.close d) idx 27"
    using wmaLoop_spec[of 27 idx d] False assms by auto
  obtain s2 w2 where l2: "wmaLoop d (int idx) 55 0 0 0 = Inr (s2, w2)"
      and q2: "s2 / w2 = spec_WMA (map hmaPoint.close d) idx 55"
    using wmaLoop_spec[of 55 idx d] False assms by auto
  show ?thesis
  proof (cases "idx < 60")
    case True
    with False show ?thesis
      by (simp add: calculateHMAForPoint_def spec_HMA_def floor_sqrt_55 l1 l2 q1 q2 spec_rawHMA_def)
  next
    case False
    then have "smoothLoop d (int idx) 55 27 7 0 0 0 =
       Inr ((\<Sum>k\<leftarrow>[0..<7]. spec_rawHMA (map hmaPoint.close d) (idx - k) * Fin (7 - real k)),
          (\<Sum>k\<leftarrow>[0..<7]. Fin (7 - real k)))"
      using smoothLoop_sum[of idx d 0 0 0] assms by simp
    moreover have "(\<Sum>k\<leftarrow>[0..<7]. Fin (7 - real k)) = Fin (real (7 * (7 + 1)) / 2)"
      using weight_sum_Fin[of 7] by simp
    moreover have "(\<Sum>k\<leftarrow>[0..<7]. spec_rawHMA (map hmaPoint.close d) (idx - k) * Fin (7 - real k))
        = (\<Sum>k\<leftarrow>[0..<7]. spec_rawHMA (map hmaPoint.close d) (idx - k) * Fin (real (7 - k)))"
      by (intro arg_cong[where f=sum_list] map_cong) auto
    ultimately show ?thesis
      using False
      by (simp add: calculateHMAForPoint_def spec_HMA_def floor_sqrt_55 l1 l2 spec_smoothedHMA_def)
  qed
qed

lemma close_update_hma:
  "i < length xs \<Longrightarrow>
     map hmaPoint.close (xs[i := (xs ! i)\<lparr>hmaPoint.hma := v\<rparr>]) = map hmaPoint.close xs"
  by (rule nth_equalityI) (simp_all add: nth_list_update)

lemma hmaLoop_spec:
  "\<exists>r. hmaLoop xs i = Inr r \<and> length r = length xs \<and>
     (\<forall>j<length xs. r ! j =
        (if j < i then xs ! j
         else (xs ! j)\<lparr>hmaPoint.hma := Some (spec_HMA (map hmaPoint.close xs) j)\<rparr>))"
proof (induction xs i rule: hmaLoop.induct)
  case (1 xs i)
  show ?case
  proof (cases "i < length xs")
    case False
    then show ?thesis by (subst hmaLoop.simps) simp
  next
    case True
    let ?v = "spec_HMA (map hmaPoint.close xs) i"
    let ?xs' = "xs[i := (xs ! i)\<lparr>hmaPoint.hma := Some ?v\<rparr>]"
    have c: "calculateHMAForPoint xs (int i) HMA_PERIOD = Inr ?v"
      using True by (simp add: HMA_PERIOD_def calculateHMAForPoint_spec)
    obtain r where r: "hmaLoop ?xs' (Suc i) = Inr r" "length r = length ?xs'"
      and n: "\<forall>j<length ?xs'. r ! j =
        (if j < Suc i then ?xs' ! j
         else (?xs' ! j)\<lparr>hmaPoint.hma := Some (spec_HMA (map hmaPoint.close ?xs') j)\<rparr>)"
      using "1.IH"[OF True c] unfolding Suc_eq_plus1 by blast
    have cl: "map hmaPoint.close ?xs' = map hmaPoint.close xs"
      using True by (rule close_update_hma)
    have "hmaLoop xs i = Inr r"
      using True by (subst hmaLoop.simps) (simp add: c r)
    moreover have "length r = length xs" using r by simp
    moreover have "\<forall>j<length xs. r ! j =
        (if j < i then xs ! j
         else (xs ! j)\<lparr>hmaPoint.hma := Some (spec_HMA (map hmaPoint.close xs) j)\<rparr>)"
    proof (intro allI impI)
      fix j assume j: "j < length xs"
      then have "r ! j = (if j < Suc i then ?xs' ! j
         else (?xs' ! j)\<lparr>hmaPoint.hma := Some (spec_HMA (map hmaPoint.close xs) j)\<rparr>)"
        using n cl by simp
      then show "r ! j = (if j < i then xs ! j
         else (xs ! j)\<lparr>hmaPoint.hma := Some (spec_HMA (map hmaPoint.close xs) j)\<rparr>)"
        using j by (cases "j = i") (auto simp: nth_list_update)
    qed
    ultimately show ?thesis by blast
  qed
qed

lemma calculateHMAFromCandles_spec:
  assumes "55 \<le> length cs"
  shows "\<exists>r. calculateHMAFromCandles cs t = Inr r \<and> period r = 55 \<and>
           hmaResult.lastUpdate r = t \<and> length (data r) = length cs \<and>
           (\<forall>j<length cs. data r ! j =
              \<lparr>hmaPoint.timestamp = candle.timestamp (cs ! j), close = candle.close (cs ! j),
               hma = Some (spec_HMA (map candle.close cs) j)\<rparr>) \<and>
           currentHMA r =
             Some (orZero (Some (spec_HMA (map candle.close cs) (length cs - 1))))"
proof -
  let ?xs = "map toHmaPoint cs"
  have cl: "map hmaPoint.close ?xs = map candle.close cs"
    by (simp add: toHmaPoint_def)
  obtain h where h: "hmaLoop ?xs (HMA_PERIOD - 1) = Inr h" "length h = length cs"
    and n: "\<forall>j<length cs. h ! j =
        (if j < 54 then ?xs ! j
         else (?xs ! j)\<lparr>hmaPoint.hma := Some (spec_HMA (map candle.close cs) j)\<rparr>)"
    using hmaLoop_spec[of ?xs "HMA_PERIOD - 1", unfolded cl] by (auto simp: HMA_PERIOD_def)
  have pts: "\<forall>j<length cs. h ! j =
              \<lparr>hmaPoint.timestamp = candle.timestamp (cs ! j), close = candle.close (cs ! j),
               hma = Some (spec_HMA (map candle.close cs) j)\<rparr>"
    using n by (auto simp: toHmaPoint_def spec_HMA_def)
  have "h \<noteq> []" using assms h(2) by auto
  then have "lastHma h = Some (spec_HMA (map candle.close cs) (length cs - 1))"
    using assms h(2) pts by (simp add: lastHma_def)
  then show ?thesis
    using assms h pts by (simp add: calculateHMAFromCandles_def HMA_PERIOD_def)
qed

section \<open>The minute of the day, and the example candles\<close>

text \<open>
  \<open>hours * 60 + minutes\<close> is the number of whole minutes since local midnight.
\<close>

lemma totalMinutes_toCandle:
  "totalMinutes (toCandle z (ts, a, b, c, d, v)) =
     (case newDate (ts * 1000) of None \<Rightarrow> None
      | Some t \<Rightarrow> Some (((t + z t) div 60000) mod 1440))"
proof (cases "newDate (ts * 1000)")
  case None
  then show ?thesis by (simp add: toCandle_def getHours_def getMinutes_def totalMinutesOf_def)
next
  case (Some t)
  define x where "x = (t + z t) div 60000"
  have "(t + z t) div 3600000 = x div 60"
    unfolding x_def using zdiv_zmult2_eq[of 60 "t + z t" 60000] by simp
  moreover have "x mod 1440 = 60 * (x div 60 mod 24) + x mod 60"
    using zmod_zmult2_eq[of 24 x 60] by simp
  ultimately show ?thesis
    using Some by (simp add: toCandle_def getHours_def getMinutes_def totalMinutesOf_def x_def)
qed

lemma example_totalMinutes:
  assumes "k < 76"
  shows "totalMinutes (toCandle ist (1699933500 + 300 * int k, a, b, c, d, v)) = Some (555 + 5 * int k)"
proof -
  have e: "(1699933500 + 300 * int k) * 1000 + 19800000 = (28332555 + 5 * int k) * 60000"
    by simp
  have "((28332555 + 5 * int k) * 60000) div 60000 = 28332555 + 5 * int k"
    by (rule nonzero_mult_div_cancel_right) simp
  moreover have "(28332555 + 5 * int k) mod 1440 = 555 + 5 * int k"
  proof -
    have "28332555 + 5 * int k = (555 + 5 * int k) + 19675 * 1440" by simp
    then have "(28332555 + 5 * int k) mod 1440 = (555 + 5 * int k) mod 1440"
      by (simp only: mod_mult_self1)
    also have "\<dots> = 555 + 5 * int k"
      using assms by (intro mod_pos_pos_trivial) simp_all
    finally show ?thesis .
  qed
  moreover have "newDate ((1699933500 + 300 * int k) * 1000) = Some ((1699933500 + 300 * int k) * 1000)"
    using assms by (simp add: newDate_def)
  ultimately show ?thesis
    by (simp only: totalMinutes_toCandle option.case ist_def e)
qed

lemma closes_example: "map candle.close (exampleCandles n price) = map price [0..<n]"
  by (simp add: exampleCandles_def exampleRaw_def toCandle_def Let_def)

lemma length_example: "length (exampleCandles n price) = n"
  by (simp add: exampleCandles_def exampleRaw_def)

lemma example_candle_nth:
  "k < n \<Longrightarrow> candle.timestamp (exampleCandles n price ! k) = 1699933500 + 300 * int k \<and>
     candle.close (exampleCandles n price ! k) = price k"
  by (simp add: exampleCandles_def exampleRaw_def toCandle_def Let_def)

text \<open>
  On the ramp \<open>100, 101, 102, ...\<close> the unsmoothed value at index 54 is \<open>154 + 2/3\<close> and the
  smoothed value at index 60 is \<open>160 - 4/3\<close>. On the candles that close at 139 for
  the first 28 and at 29 afterwards, the unsmoothed value at index 54 is 0.
\<close>

lemma ramp_raw_54: "spec_rawHMA (map rampPrice [0..<61]) 54 = Fin (464 / 3)"
  by (simp add: spec_rawHMA_def spec_WMA_def rampPrice_def upt_rec numeral_number zero_number)

lemma drop_raw_54: "spec_rawHMA (map dropPrice [0..<55]) 54 = 0"
  by (simp add: spec_rawHMA_def spec_WMA_def dropPrice_def upt_rec numeral_number zero_number)

lemma ramp_smoothed_60: "spec_smoothedHMA (map rampPrice [0..<61]) 60 = Fin (476 / 3)"
  by (simp add: spec_smoothedHMA_def spec_rawHMA_def spec_WMA_def rampPrice_def upt_rec
        numeral_number zero_number)

text \<open>When candle 60 has no close, the value at index 60 is \<open>NaN\<close>.\<close>

lemma gap_smoothed_60: "spec_smoothedHMA (map gapPrice [0..<61]) 60 = NaN"
  by (simp add: spec_smoothedHMA_def spec_rawHMA_def spec_WMA_def gapPrice_def upt_rec
        numeral_number zero_number)

section \<open>The HMA series\<close>

text \<open>
  Claim C1. For every candle sequence of at least 55 candles \<open>calculateHMAFromCandles\<close>
  succeeds, and the \<open>hma\<close> of its point \<open>i\<close> is 0 for \<open>i < 54\<close>, the unsmoothed
  \<open>2 * WMA(i, 27) - WMA(i, 55)\<close> for \<open>54 \<le> i < 60\<close>, and for \<open>i \<ge> 60\<close> the 7-point weighted
  average (weights 7, 6, ..., 1) of the unsmoothed values at \<open>i\<close>, \<open>i - 1\<close>, ..., \<open>i - 6\<close>.
\<close>

theorem hma_series_piecewise:
  assumes "55 \<le> length cs"
  shows "\<exists>r. calculateHMAFromCandles cs t = Inr r \<and> length (data r) = length cs \<and>
           (\<forall>i<length cs. hmaPoint.hma (data r ! i) =
              Some (if i < 54 then 0
                    else if i < 60 then spec_rawHMA (map candle.close cs) i
                    else spec_smoothedHMA (map candle.close cs) i))"
proof -
  obtain r where r: "calculateHMAFromCandles cs t = Inr r" "length (data r) = length cs"
    and p: "\<forall>j<length cs. data r ! j =
              \<lparr>hmaPoint.timestamp = candle.timestamp (cs ! j), close = candle.close (cs ! j),
               hma = Some (spec_HMA (map candle.close cs) j)\<rparr>"
    using calculateHMAFromCandles_spec[OF assms, of t] by blast
  have "\<forall>i<length cs. hmaPoint.hma (data r ! i) = Some (spec_HMA (map candle.close cs) i)"
    using p by simp
  then show ?thesis
    using r unfolding spec_HMA_def by blast
qed

theorem hma_series_piecewise_witness:
  "55 \<le> length (exampleCandles 61 rampPrice) \<and>
   (\<exists>r. calculateHMAFromCandles (exampleCandles 61 rampPrice) 0 = Inr r \<and>
        length (data r) = 61 \<and>
        hmaPoint.hma (data r ! 53) = Some 0 \<and>
        hmaPoint.hma (data r ! 54) = Some (Fin (464 / 3)) \<and>
        hmaPoint.hma (data r ! 60) = Some (Fin (476 / 3)))"
proof -
  have l: "55 \<le> length (exampleCandles 61 rampPrice)"
    by (simp add: length_example)
  from hma_series_piecewise[OF l, of 0]
  obtain r where r: "calculateHMAFromCandles (exampleCandles 61 rampPrice) 0 = Inr r"
      "length (data r) = 61"
    and p: "\<forall>i<61. hmaPoint.hma (data r ! i) =
              Some (if i < 54 then 0
                    else if i < 60 then spec_rawHMA (map rampPrice [0..<61]) i
                    else spec_smoothedHMA (map rampPrice [0..<61]) i)"
    unfolding length_example closes_example by blast
  have "hmaPoint.hma (data r ! 53) = Some 0" using p by simp
  moreover have "hmaPoint.hma (data r ! 54) = Some (Fin (464 / 3))" using p ramp_raw_54 by simp
  moreover have "hmaPoint.hma (data r ! 60) = Some (Fin (476 / 3))" using p ramp_smoothed_60 by simp
  ultimately show ?thesis using l r by blast
qed

text \<open>
  Claim C3, as the code has it. With fewer than 55 candles \<open>calculateHMAFromCandles\<close>
  fails with the insufficient-data error. With exactly 55 candles it succeeds, the
  \<open>hma\<close> of every point below index 54 is 0, and the \<open>hma\<close> of the point at index 54 is
  the unsmoothed value \<open>2 * WMA(54, 27) - WMA(54, 55)\<close>: at most one point is non-zero,
  and the point at index 54 is non-zero exactly when that value is.
\<close>

theorem insufficient_data_gate:
  "(length cs < 55 \<longrightarrow> calculateHMAFromCandles cs t = Inl InsufficientData) \<and>
   (length cs = 55 \<longrightarrow>
      (\<exists>r. calculateHMAFromCandles cs t = Inr r \<and> length (data r) = 55 \<and>
           (\<forall>i<54. hmaPoint.hma (data r ! i) = Some 0) \<and>
           hmaPoint.hma (data r ! 54) = Some (spec_rawHMA (map candle.close cs) 54)))"
proof (intro conjI impI)
  assume "length cs < 55"
  then show "calculateHMAFromCandles cs t = Inl InsufficientData"
    by (simp add: calculateHMAFromCandles_def HMA_PERIOD_def)
next
  assume l: "length cs = 55"
  then have "55 \<le> length cs" by simp
  from calculateHMAFromCandles_spec[OF this, of t]
  obtain r where r: "calculateHMAFromCandles cs t = Inr r" "length (data r) = length cs"
    and p: "\<forall>j<length cs. data r ! j =
              \<lparr>hmaPoint.timestamp = candle.timestamp (cs ! j), close = candle.close (cs ! j),
               hma = Some (spec_HMA (map candle.close cs) j)\<rparr>"
    by blast
  have "\<forall>i<54. hmaPoint.hma (data r ! i) = Some 0"
    using p l by (simp add: spec_HMA_def)
  moreover have "hmaPoint.hma (data r ! 54) = Some (spec_rawHMA (map candle.close cs) 54)"
    using p l by (simp add: spec_HMA_def)
  ultimately show "\<exists>r. calculateHMAFromCandles cs t = Inr r \<and> length (data r) = 55 \<and>
           (\<forall>i<54. hmaPoint.hma (data r ! i) = Some 0) \<and>
           hmaPoint.hma (data r ! 54) = Some (spec_rawHMA (map candle.close cs) 54)"
    using r l by auto
qed

theorem insufficient_data_gate_witness:
  "calculateHMAFromCandles (exampleCandles 54 rampPrice) 0 = Inl InsufficientData \<and>
   (\<exists>r. calculateHMAFromCandles (exampleCandles 55 rampPrice) 0 = Inr r \<and>
        length (data r) = 55 \<and>
        hmaPoint.hma (data r ! 0) = Some 0 \<and>
        hmaPoint.hma (data r ! 53) = Some 0 \<and>
        hmaPoint.hma (data r ! 54) = Some (Fin (464 / 3)))"
proof -
  have a: "calculateHMAFromCandles (exampleCandles 54 rampPrice) 0 = Inl InsufficientData"
    using insufficient_data_gate[of "exampleCandles 54 rampPrice" 0]
    by (simp add: length_example)
  have v: "spec_rawHMA (map rampPrice [0..<55]) 54 = Fin (464 / 3)"
    by (simp add: spec_rawHMA_def spec_WMA_def rampPrice_def upt_rec numeral_number zero_number)
  obtain r where r: "calculateHMAFromCandles (exampleCandles 55 rampPrice) 0 = Inr r"
      "length (data r) = 55"
      "\<forall>i<54. hmaPoint.hma (data r ! i) = Some 0"
      "hmaPoint.hma (data r ! 54) = Some (Fin (464 / 3))"
    using insufficient_data_gate[of "exampleCandles 55 rampPrice" 0]
    by (auto simp: length_example closes_example v)
  have "hmaPoint.hma (data r ! 0) = Some 0" "hmaPoint.hma (data r ! 53) = Some 0"
    using r(3) by simp_all
  then show ?thesis using a r by blast
qed

text \<open>
  The claim as stated asks for exactly one non-zero point. On 55 candles that close at
  139 for the first 28 and at 29 afterwards, \<open>WMA(54, 27) = 29\<close> and \<open>WMA(54, 55) = 58\<close>,
  and every \<open>hma\<close> of the result is 0.
\<close>

theorem all_zero_hma_counterexample:
  "hmaValues (calculateHMAFromCandles (exampleCandles 55 dropPrice) 0) =
     Inr (replicate 55 (Some 0))"
proof -
  have "55 \<le> length (exampleCandles 55 dropPrice)" by (simp add: length_example)
  from calculateHMAFromCandles_spec[OF this, of 0]
  obtain r where r: "calculateHMAFromCandles (exampleCandles 55 dropPrice) 0 = Inr r"
      "length (data r) = 55"
    and p: "\<forall>j<55. hmaPoint.hma (data r ! j) = Some (spec_HMA (map dropPrice [0..<55]) j)"
    unfolding length_example closes_example by auto
  have "spec_HMA (map dropPrice [0..<55]) j = 0" if "j < 55" for j
    using that drop_raw_54 by (cases "j = 54") (auto simp: spec_HMA_def)
  then have "map hmaPoint.hma (data r) = replicate 55 (Some 0)"
    using r p by (intro nth_equalityI) simp_all
  then show ?thesis using r by (simp add: hmaValues_def)
qed

text \<open>
  Claim C10, as the code has it. For every candle sequence of at least 55 candles the
  data returned has the length of the input and point \<open>i\<close> carries the timestamp and the
  close of candle \<open>i\<close>. \<open>currentHMA\<close> is the \<open>hma\<close> of the last point when that is not
  \<open>NaN\<close>, and 0 when it is \<open>NaN\<close>.
\<close>

theorem structure_preserved:
  assumes "55 \<le> length cs"
  shows "\<exists>r. calculateHMAFromCandles cs t = Inr r \<and> length (data r) = length cs \<and>
           (\<forall>i<length cs. hmaPoint.timestamp (data r ! i) = candle.timestamp (cs ! i) \<and>
                            hmaPoint.close (data r ! i) = candle.close (cs ! i)) \<and>
           (hmaPoint.hma (data r ! (length cs - 1)) \<noteq> Some NaN \<longrightarrow>
              currentHMA r = hmaPoint.hma (data r ! (length cs - 1))) \<and>
           (hmaPoint.hma (data r ! (length cs - 1)) = Some NaN \<longrightarrow> currentHMA r = Some 0)"
proof -
  from calculateHMAFromCandles_spec[OF assms, of t]
  obtain r where r: "calculateHMAFromCandles cs t = Inr r" "length (data r) = length cs"
      "currentHMA r = Some (orZero (Some (spec_HMA (map candle.close cs) (length cs - 1))))"
    and p: "\<forall>j<length cs. data r ! j =
              \<lparr>hmaPoint.timestamp = candle.timestamp (cs ! j), close = candle.close (cs ! j),
               hma = Some (spec_HMA (map candle.close cs) j)\<rparr>"
    by blast
  have "\<forall>i<length cs. hmaPoint.timestamp (data r ! i) = candle.timestamp (cs ! i) \<and>
                            hmaPoint.close (data r ! i) = candle.close (cs ! i)"
    using p by simp
  moreover have l: "hmaPoint.hma (data r ! (length cs - 1)) =
      Some (spec_HMA (map candle.close cs) (length cs - 1))"
    using p assms by simp
  have "hmaPoint.hma (data r ! (length cs - 1)) \<noteq> Some NaN \<longrightarrow>
              currentHMA r = hmaPoint.hma (data r ! (length cs - 1))"
    using l r(3) by (simp add: orZero_Some)
  moreover have "hmaPoint.hma (data r ! (length cs - 1)) = Some NaN \<longrightarrow> currentHMA r = Some 0"
    using l r(3) by (simp add: orZero_Some)
  ultimately show ?thesis using r by blast
qed

lemma example_candle_hma:
  assumes "55 \<le> n" "i < n"
  shows "hmaOf (calculateHMAFromCandles (exampleCandles n price) t) i =
           Inr (Some (spec_HMA (map price [0..<n]) i)) \<and>
         currentHMAOf (calculateHMAFromCandles (exampleCandles n price) t) =
           Inr (Some (orZero (Some (spec_HMA (map price [0..<n]) (n - 1)))))"
proof -
  have "55 \<le> length (exampleCandles n price)" using assms by (simp add: length_example)
  from calculateHMAFromCandles_spec[OF this, of t]
  obtain r where r: "calculateHMAFromCandles (exampleCandles n price) t = Inr r"
      "length (data r) = n"
      "currentHMA r = Some (orZero (Some (spec_HMA (map price [0..<n]) (n - 1))))"
    and p: "\<forall>j<n. hmaPoint.hma (data r ! j) = Some (spec_HMA (map price [0..<n]) j)"
    unfolding length_example closes_example by auto
  then show ?thesis
    using assms by (simp add: hmaOf_def hmaAt_def currentHMAOf_def)
qed

text \<open>
  The claim as stated has \<open>currentHMA\<close> equal to the \<open>hma\<close> of the last point. On the 61
  candles of the ramp of which the last has come without its close, the \<open>hma\<close> of the
  last point is \<open>NaN\<close> and \<open>currentHMA\<close> is 0.
\<close>

theorem currentHMA_nan_counterexample:
  "hmaOf (calculateHMAFromCandles (exampleCandles 61 gapPrice) 0) 60 = Inr (Some NaN) \<and>
   currentHMAOf (calculateHMAFromCandles (exampleCandles 61 gapPrice) 0) = Inr (Some 0)"
  using example_candle_hma[of 61 60 gapPrice 0]
  by (simp add: spec_HMA_def gap_smoothed_60 orZero_Some)

theorem structure_preserved_witness:
  "55 \<le> length (exampleCandles 61 rampPrice) \<and>
   (\<exists>r. calculateHMAFromCandles (exampleCandles 61 rampPrice) 0 = Inr r \<and>
        length (data r) = 61 \<and>
        hmaPoint.timestamp (data r ! 0) = 1699933500 \<and>
        hmaPoint.close (data r ! 0) = Fin 100 \<and>
        hmaPoint.timestamp (data r ! 60) = 1699951500 \<and>
        hmaPoint.close (data r ! 60) = Fin 160 \<and>
        hmaPoint.hma (data r ! 60) = Some (Fin (476 / 3)) \<and>
        currentHMA r = Some (Fin (476 / 3))) \<and>
   (\<exists>r. calculateHMAFromCandles (exampleCandles 61 gapPrice) 0 = Inr r \<and>
        hmaPoint.hma (data r ! 60) = Some NaN \<and>
        currentHMA r = Some 0)"
proof -
  have l: "55 \<le> length (exampleCandles 61 rampPrice)"
    by (simp add: length_example)
  have h: "hmaOf (calculateHMAFromCandles (exampleCandles 61 rampPrice) 0) 60 =
      Inr (Some (Fin (476 / 3)))"
    using example_candle_hma[of 61 60 rampPrice 0] by (simp add: spec_HMA_def ramp_smoothed_60)
  from structure_preserved[OF l, of 0]
  obtain r where r: "calculateHMAFromCandles (exampleCandles 61 rampPrice) 0 = Inr r"
      "length (data r) = 61"
      "hmaPoint.hma (data r ! 60) \<noteq> Some NaN \<longrightarrow> currentHMA r = hmaPoint.hma (data r ! 60)"
    and p: "\<forall>i<61. hmaPoint.timestamp (data r ! i) = candle.timestamp (exampleCandles 61 rampPrice ! i) \<and>
                            hmaPoint.close (data r ! i) = candle.close (exampleCandles 61 rampPrice ! i)"
    unfolding length_example by auto
  have v: "hmaPoint.hma (data r ! 60) = Some (Fin (476 / 3))"
    using h r by (simp add: hmaOf_def hmaAt_def)
  then have c: "currentHMA r = Some (Fin (476 / 3))" using r(3) by simp
  have f: "hmaPoint.timestamp (data r ! 0) = 1699933500" "hmaPoint.close (data r ! 0) = Fin 100"
       "hmaPoint.timestamp (data r ! 60) = 1699951500" "hmaPoint.close (data r ! 60) = Fin 160"
    using p by (simp_all add: example_candle_nth rampPrice_def)
  have l': "55 \<le> length (exampleCandles 61 gapPrice)"
    by (simp add: length_example)
  have h': "hmaOf (calculateHMAFromCandles (exampleCandles 61 gapPrice) 0) 60 = Inr (Some NaN)"
    using example_candle_hma[of 61 60 gapPrice 0] by (simp add: spec_HMA_def gap_smoothed_60)
  from structure_preserved[OF l', of 0]
  obtain r' where r': "calculateHMAFromCandles (exampleCandles 61 gapPrice) 0 = Inr r'"
      "length (data r') = 61"
      "hmaPoint.hma (data r' ! 60) = Some NaN \<longrightarrow> currentHMA r' = Some 0"
    unfolding length_example by auto
  have v': "hmaPoint.hma (data r' ! 60) = Some NaN"
    using h' r' by (simp add: hmaOf_def hmaAt_def)
  then have c': "currentHMA r' = Some 0" using r'(3) by simp
  show ?thesis using l r f v c r' v' c' by blast
qed

section \<open>The trading-hours filter\<close>

lemma inTradingHours_toCandle: "inTradingHours (toCandle z r) = spec_inSession z r"
  by (cases r)
     (simp add: inTradingHours_def spec_inSession_def spec_minuteOfDay_def toCandle_def
        newDate_def getHours_def getMinutes_def totalMinutesOf_def Let_def
        MARKET_START_MINUTES_def MARKET_END_MINUTES_def)

lemma convertAndFilter_map_filter:
  "convertAndFilterTradingHoursCandles z raws = map (toCandle z) (filter (spec_inSession z) raws)"
  by (simp add: convertAndFilterTradingHoursCandles_def filter_map comp_def inTradingHours_toCandle)


lemma edge_inSession:
  "filter (spec_inSession ist) edgeRaw =
     [(1699933500, 2, 3, 1, 2, 20), (1699956000, 3, 4, 2, 3, 30), (1699933800, 5, 6, 4, 5, 50)]"
  by (simp add: edgeRaw_def spec_inSession_def spec_minuteOfDay_def ist_def)


lemma toCandle_rawOf: "toCandle z (rawOf (toCandle z r)) = toCandle z r"
  by (cases r) (simp add: toCandle_def rawOf_def Let_def)

text \<open>
  Claim C8. Every candle that \<open>convertAndFilterTradingHoursCandles\<close> returns has its
  minute of the day in \<open>[555, 930]\<close>; filtering its output again keeps every candle, and
  so does converting and filtering the tuples of its output.
\<close>

theorem session_filter_idempotent:
  "(\<forall>c \<in> set (convertAndFilterTradingHoursCandles z raws).
      \<exists>m. totalMinutes c = Some m \<and> 555 \<le> m \<and> m \<le> 930) \<and>
   filter inTradingHours (convertAndFilterTradingHoursCandles z raws) =
     convertAndFilterTradingHoursCandles z raws \<and>
   convertAndFilterTradingHoursCandles z (map rawOf (convertAndFilterTradingHoursCandles z raws)) =
     convertAndFilterTradingHoursCandles z raws"
proof (intro conjI)
  show "\<forall>c \<in> set (convertAndFilterTradingHoursCandles z raws).
      \<exists>m. totalMinutes c = Some m \<and> 555 \<le> m \<and> m \<le> 930"
    by (auto simp: convertAndFilterTradingHoursCandles_def inTradingHours_def
          MARKET_START_MINUTES_def MARKET_END_MINUTES_def split: option.splits)
  show "filter inTradingHours (convertAndFilterTradingHoursCandles z raws) =
     convertAndFilterTradingHoursCandles z raws"
    by (simp add: convertAndFilterTradingHoursCandles_def)
  have "map (toCandle z) (map rawOf (filter inTradingHours (map (toCandle z) raws))) =
      filter inTradingHours (map (toCandle z) raws)"
    by (induction raws) (simp_all add: toCandle_rawOf)
  then show "convertAndFilterTradingHoursCandles z (map rawOf (convertAndFilterTradingHoursCandles z raws)) =
     convertAndFilterTradingHoursCandles z raws"
    by (simp add: convertAndFilterTradingHoursCandles_def)
qed

theorem session_filter_idempotent_witness:
  "map candle.timestamp (filter inTradingHours (convertAndFilterTradingHoursCandles ist edgeRaw)) =
     [1699933500, 1699956000, 1699933800] \<and>
   map candle.timestamp
     (convertAndFilterTradingHoursCandles ist
        (map rawOf (convertAndFilterTradingHoursCandles ist edgeRaw))) =
     [1699933500, 1699956000, 1699933800]"
proof -
  have t: "map candle.timestamp (convertAndFilterTradingHoursCandles ist edgeRaw) =
     [1699933500, 1699956000, 1699933800]"
    by (simp add: convertAndFilter_map_filter edge_inSession toCandle_def Let_def)
  show ?thesis
    using session_filter_idempotent[of ist edgeRaw] by (simp add: t)
qed

section \<open>The cache\<close>

text \<open>The \<open>map\<close> of lines 262 to 265 never throws when there is a point for every candle.\<close>

lemma candlesWithHMA_ok:
  assumes "index + length cs \<le> length points"
  shows "\<exists>w. candlesWithHMA points cs index = Inr w \<and> length w = length cs \<and>
           (\<forall>j<length cs. candle.truncate (w ! j) = cs ! j \<and>
              candleWithHMA.hma (w ! j) =
                (if index + j < 54 then None else hmaPoint.hma (points ! (index + j))))"
  using assms
proof (induction cs arbitrary: index)
  case Nil
  then show ?case by simp
next
  case (Cons c cs)
  then have "Suc index + length cs \<le> length points" by simp
  from Cons.IH[OF this]
  obtain w where w: "candlesWithHMA points cs (Suc index) = Inr w" "length w = length cs"
    and n: "\<forall>j<length cs. candle.truncate (w ! j) = cs ! j \<and>
              candleWithHMA.hma (w ! j) =
                (if Suc index + j < 54 then None else hmaPoint.hma (points ! (Suc index + j)))"
    by blast
  let ?h = "if index < 54 then None else hmaPoint.hma (points ! index)"
  let ?x = "\<lparr>candle.timestamp = candle.timestamp c, date = date c,
                      totalMinutes = totalMinutes c, open = candle.open c, high = high c,
                      low = low c, close = candle.close c, volume = volume c,
                      candleWithHMA.hma = ?h\<rparr>"
  have i: "index < length points" using Cons.prems by simp
  have e: "candlesWithHMA points (c # cs) index = Inr (?x # w)"
    using i w by (auto simp: HMA_PERIOD_def hmaAt_def)
  have "\<forall>j<length (c # cs). candle.truncate ((?x # w) ! j) = (c # cs) ! j \<and>
              candleWithHMA.hma ((?x # w) ! j) =
                (if index + j < 54 then None else hmaPoint.hma (points ! (index + j)))"
  proof (intro allI impI)
    fix j assume "j < length (c # cs)"
    then show "candle.truncate ((?x # w) ! j) = (c # cs) ! j \<and>
              candleWithHMA.hma ((?x # w) ! j) =
                (if index + j < 54 then None else hmaPoint.hma (points ! (index + j)))"
      using n by (cases j) (auto simp: candle.truncate_def)
  qed
  then show ?case using e w by auto
qed

lemma truncate_fields:
  "candle.truncate x = c \<Longrightarrow> candle.timestamp x = candle.timestamp c \<and> candle.close x = candle.close c"
  by (auto simp: candle.truncate_def)

lemma fetchAndStore_success:
  assumes "fetchHistoricalData tok (http e) = Inr h" "h \<noteq> []"
    and "60 \<le> length (convertAndFilterTradingHoursCandles (tza e) h)"
  shows "\<exists>r w. calculateHMAFromCandles (convertAndFilterTradingHoursCandles (tza e) h) (tCalc e) = Inr r \<and>
           stored (convertAndFilterTradingHoursCandles (tza e) h) r w \<and>
           fetchAndStore e cache symb tok =
             \<lparr>result = Inr r,
              cacheAfter = cache(symb \<mapsto>
                \<lparr>candles = w, lastUpdate = tStore e, symbol = symb, isLiveMonitoring = False\<rparr>),
              fetchCalls = 1\<rparr>"
proof -
  let ?cs = "convertAndFilterTradingHoursCandles (tza e) h"
  have "55 \<le> length ?cs" using assms(3) by simp
  from calculateHMAFromCandles_spec[OF this, of "tCalc e"]
  obtain r where r: "calculateHMAFromCandles ?cs (tCalc e) = Inr r" "length (data r) = length ?cs"
    by blast
  have "0 + length ?cs \<le> length (data r)" using r by simp
  from candlesWithHMA_ok[OF this]
  obtain w where w: "candlesWithHMA (data r) ?cs 0 = Inr w" and st: "stored ?cs r w"
    unfolding stored_def by auto
  have "fetchAndStore e cache symb tok =
             \<lparr>result = Inr r,
              cacheAfter = cache(symb \<mapsto>
                \<lparr>candles = w, lastUpdate = tStore e, symbol = symb, isLiveMonitoring = False\<rparr>),
              fetchCalls = 1\<rparr>"
    using assms r w by (simp add: fetchAndStore_def REQUIRED_CANDLES_def Let_def)
  then show ?thesis using r st by blast
qed

lemma fetchAndStore_cases:
  "(\<exists>err. fetchAndStore e cache symb tok = \<lparr>result = Inl err, cacheAfter = cache, fetchCalls = 1\<rparr>) \<or>
   (\<exists>h r w. fetchHistoricalData tok (http e) = Inr h \<and> h \<noteq> [] \<and>
        60 \<le> length (convertAndFilterTradingHoursCandles (tza e) h) \<and>
        calculateHMAFromCandles (convertAndFilterTradingHoursCandles (tza e) h) (tCalc e) = Inr r \<and>
        stored (convertAndFilterTradingHoursCandles (tza e) h) r w \<and>
        fetchAndStore e cache symb tok =
             \<lparr>result = Inr r,
              cacheAfter = cache(symb \<mapsto>
                \<lparr>candles = w, lastUpdate = tStore e, symbol = symb, isLiveMonitoring = False\<rparr>),
              fetchCalls = 1\<rparr>)"
proof (cases "fetchHistoricalData tok (http e)")
  case (Inl err)
  then show ?thesis by (simp add: fetchAndStore_def)
next
  case (Inr h)
  show ?thesis
  proof (cases "h = [] \<or> length (convertAndFilterTradingHoursCandles (tza e) h) < 60")
    case True
    then show ?thesis using Inr
      by (auto simp: fetchAndStore_def REQUIRED_CANDLES_def Let_def)
  next
    case False
    then have "h \<noteq> []" "60 \<le> length (convertAndFilterTradingHoursCandles (tza e) h)" by auto
    from fetchAndStore_success[OF Inr this, of cache symb] Inr this
    show ?thesis by blast
  qed
qed

lemma fetchCalls_fetchAndStore: "fetchCalls (fetchAndStore e cache symb tok) = 1"
  using fetchAndStore_cases[of e cache symb tok] by auto

lemma fetchAndCalculateHMA_fresh:
  "fetchAndCalculateHMA e cache symb tok =
     (if spec_fresh cache symb (now e)
      then \<lparr>result = Inr (cachedResult (the (cache symb))), cacheAfter = cache, fetchCalls = 0\<rparr>
      else fetchAndStore e cache symb tok)"
  by (auto simp: fetchAndCalculateHMA_def spec_fresh_def usable_def REQUIRED_CANDLES_def
        split: option.splits)

text \<open>The example calls.\<close>

lemma convert_example:
  assumes "n \<le> 76"
  shows "convertAndFilterTradingHoursCandles ist (exampleRaw n price) = exampleCandles n price"
proof -
  have "inTradingHours (toCandle ist (1699933500 + 300 * int k, a, b, c, d, v))" if "k < 76" for k a b c d v
    using example_totalMinutes[OF that, of a b c d v] that
    by (simp add: inTradingHours_def MARKET_START_MINUTES_def MARKET_END_MINUTES_def)
  then have "\<forall>x \<in> set (map (toCandle ist) (exampleRaw n price)). inTradingHours x"
    using assms by (auto simp: exampleRaw_def)
  then show ?thesis
    unfolding convertAndFilterTradingHoursCandles_def exampleCandles_def
    by (simp only: filter_True)
qed

lemma fetch_ok: "fetchHistoricalData exampleToken (okResponse n price) = Inr (exampleRaw n price)"
  by (simp add: fetchHistoricalData_def okResponse_def exampleToken_def truthy_def)

lemma exampleRaw_nonempty: "0 < n \<Longrightarrow> exampleRaw n price \<noteq> []"
  by (simp add: exampleRaw_def)

lemma firstCall_stored:
  "\<exists>r w. calculateHMAFromCandles (exampleCandles 61 price) 1699951799999 = Inr r \<and>
     stored (exampleCandles 61 price) r w \<and>
     (firstCall price) =
       \<lparr>result = Inr r,
        cacheAfter = emptyCache(exampleSymbol \<mapsto>
          \<lparr>candles = w, lastUpdate = 1699951800000, symbol = exampleSymbol,
           isLiveMonitoring = False\<rparr>),
        fetchCalls = 1\<rparr>"
proof -
  let ?e = "exampleEnv 1699951799749 (okResponse 61 price)"
  have f: "fetchHistoricalData exampleToken (http ?e) = Inr (exampleRaw 61 price)"
    by (simp add: exampleEnv_def fetch_ok)
  have c: "convertAndFilterTradingHoursCandles (tza ?e) (exampleRaw 61 price) =
      exampleCandles 61 price"
    by (simp add: exampleEnv_def convert_example)
  have n: "exampleRaw 61 price \<noteq> []" by (simp add: exampleRaw_nonempty)
  have l: "60 \<le> length (convertAndFilterTradingHoursCandles (tza ?e) (exampleRaw 61 price))"
    by (simp add: c length_example)
  have nf: "\<not> spec_fresh emptyCache exampleSymbol (now ?e)"
    by (simp add: spec_fresh_def emptyCache_def)
  have "(firstCall price) = fetchAndStore ?e emptyCache exampleSymbol exampleToken"
    unfolding firstCall_def by (simp only: fetchAndCalculateHMA_fresh nf if_False)
  then show ?thesis
    using fetchAndStore_success[OF f n l, of emptyCache exampleSymbol]
    unfolding c by (simp add: exampleEnv_def)
qed

lemma stored_fresh:
  assumes "stored cs r w" "60 \<le> length cs" "cache symb = Some entry"
    "cacheEntry.candles entry = w" "t - cacheEntry.lastUpdate entry < 5 * 60 * 1000"
  shows "spec_fresh cache symb t"
  using assms by (simp add: spec_fresh_def stored_def)

lemma firstCall_facts:
  "\<exists>r w. calculateHMAFromCandles (exampleCandles 61 price) 1699951799999 = Inr r \<and>
     stored (exampleCandles 61 price) r w \<and>
     result (firstCall price) = Inr r \<and> fetchCalls (firstCall price) = 1 \<and>
     cacheAfter (firstCall price) = emptyCache(exampleSymbol \<mapsto>
          \<lparr>candles = w, lastUpdate = 1699951800000, symbol = exampleSymbol,
           isLiveMonitoring = False\<rparr>)"
proof -
  from firstCall_stored
  obtain r w where "calculateHMAFromCandles (exampleCandles 61 price) 1699951799999 = Inr r"
    "stored (exampleCandles 61 price) r w"
    and f: "(firstCall price) =
       \<lparr>result = Inr r,
        cacheAfter = emptyCache(exampleSymbol \<mapsto>
          \<lparr>candles = w, lastUpdate = 1699951800000, symbol = exampleSymbol,
           isLiveMonitoring = False\<rparr>),
        fetchCalls = 1\<rparr>"
    by blast
  moreover have "result (firstCall price) = Inr r" by (subst f) simp
  moreover have "fetchCalls (firstCall price) = 1" by (subst f) simp
  moreover have "cacheAfter (firstCall price) = emptyCache(exampleSymbol \<mapsto>
          \<lparr>candles = w, lastUpdate = 1699951800000, symbol = exampleSymbol,
           isLiveMonitoring = False\<rparr>)" by (subst f) simp
  ultimately show ?thesis by blast
qed

lemma laterCall_fresh:
  assumes "ms < 300000"
  shows "\<exists>r w. calculateHMAFromCandles (exampleCandles 61 price) 1699951799999 = Inr r \<and>
     stored (exampleCandles 61 price) r w \<and>
     result (firstCall price) = Inr r \<and>
     result (laterCall price ms answer) =
       Inr (cachedResult \<lparr>candles = w, lastUpdate = 1699951800000, symbol = exampleSymbol,
           isLiveMonitoring = False\<rparr>) \<and>
     cacheAfter (laterCall price ms answer) = cacheAfter (firstCall price) \<and>
     fetchCalls (laterCall price ms answer) = 0"
proof -
  from firstCall_facts
  obtain r w where r: "calculateHMAFromCandles (exampleCandles 61 price) 1699951799999 = Inr r"
    and st: "stored (exampleCandles 61 price) r w"
    and f: "result (firstCall price) = Inr r"
    and c: "cacheAfter (firstCall price) = emptyCache(exampleSymbol \<mapsto>
          \<lparr>candles = w, lastUpdate = 1699951800000, symbol = exampleSymbol,
           isLiveMonitoring = False\<rparr>)"
    by blast
  let ?entry = "\<lparr>candles = w, lastUpdate = 1699951800000, symbol = exampleSymbol,
           isLiveMonitoring = False\<rparr>"
  have e: "cacheAfter (firstCall price) exampleSymbol = Some ?entry" by (simp add: c)
  have "spec_fresh (cacheAfter (firstCall price)) exampleSymbol (1699951800000 + ms)"
    using stored_fresh[where cache="cacheAfter (firstCall price)" and symb=exampleSymbol, OF st _ e] assms
    by (simp add: length_example)
  then have "laterCall price ms answer =
       \<lparr>result = Inr (cachedResult ?entry), cacheAfter = cacheAfter (firstCall price), fetchCalls = 0\<rparr>"
    using e by (simp add: laterCall_def fetchAndCalculateHMA_fresh exampleEnv_def)
  then have "result (laterCall price ms answer) = Inr (cachedResult ?entry)"
    "cacheAfter (laterCall price ms answer) = cacheAfter (firstCall price)"
    "fetchCalls (laterCall price ms answer) = 0"
    by simp_all
  then show ?thesis using r st f by blast
qed

section \<open>Serving from the cache\<close>

lemma cachedResult_stored:
  assumes c: "calculateHMAFromCandles cs t = Inr r" and st: "stored cs r w" and l: "60 \<le> length cs"
    and e: "cacheEntry.candles entry = w"
  shows "period (cachedResult entry) = period r \<and>
         length (data (cachedResult entry)) = length (data r) \<and>
         (\<forall>i<length (data r).
            hmaPoint.timestamp (data (cachedResult entry) ! i) = hmaPoint.timestamp (data r ! i) \<and>
            hmaPoint.close (data (cachedResult entry) ! i) = hmaPoint.close (data r ! i) \<and>
            hmaPoint.hma (data (cachedResult entry) ! i) =
              (if i < 54 then None else hmaPoint.hma (data r ! i))) \<and>
         currentHMA (cachedResult entry) = hmaPoint.hma (data r ! (length (data r) - 1)) \<and>
         currentHMA r = Some (orZero (hmaPoint.hma (data r ! (length (data r) - 1)))) \<and>
         hmaPoint.hma (data r ! (length (data r) - 1)) \<noteq> None \<and>
         hmaResult.lastUpdate (cachedResult entry) = cacheEntry.lastUpdate entry"
proof -
  have "55 \<le> length cs" using l by simp
  from calculateHMAFromCandles_spec[OF this, of t] c
  have r: "period r = 55" "length (data r) = length cs"
      "currentHMA r = Some (orZero (Some (spec_HMA (map candle.close cs) (length cs - 1))))"
    and p: "\<forall>j<length cs. data r ! j =
              \<lparr>hmaPoint.timestamp = candle.timestamp (cs ! j), close = candle.close (cs ! j),
               hma = Some (spec_HMA (map candle.close cs) j)\<rparr>"
    by auto
  have w: "length w = length cs"
    and q: "\<forall>j<length cs. candle.truncate (w ! j) = cs ! j \<and>
         candleWithHMA.hma (w ! j) = (if j < 54 then None else hmaPoint.hma (data r ! j))"
    using st by (simp_all add: stored_def)
  have pt: "\<forall>i<length (data r).
            hmaPoint.timestamp (data (cachedResult entry) ! i) = hmaPoint.timestamp (data r ! i) \<and>
            hmaPoint.close (data (cachedResult entry) ! i) = hmaPoint.close (data r ! i) \<and>
            hmaPoint.hma (data (cachedResult entry) ! i) =
              (if i < 54 then None else hmaPoint.hma (data r ! i))"
  proof (intro allI impI)
    fix i assume i: "i < length (data r)"
    then have "candle.truncate (w ! i) = cs ! i" using q r by simp
    then have "candle.timestamp (w ! i) = candle.timestamp (cs ! i)"
        "candle.close (w ! i) = candle.close (cs ! i)"
      using truncate_fields by blast+
    then show "hmaPoint.timestamp (data (cachedResult entry) ! i) = hmaPoint.timestamp (data r ! i) \<and>
            hmaPoint.close (data (cachedResult entry) ! i) = hmaPoint.close (data r ! i) \<and>
            hmaPoint.hma (data (cachedResult entry) ! i) =
              (if i < 54 then None else hmaPoint.hma (data r ! i))"
      using i p q r w e by (simp add: cachedResult_def cachedPoint_def)
  qed
  have "length cs - 1 < length cs" "\<not> length cs - 1 < 54" using l by simp_all
  then have "candleWithHMA.hma (w ! (length cs - 1)) = hmaPoint.hma (data r ! (length cs - 1))"
    using q by metis
  then have "candleWithHMA.hma (w ! (length w - 1)) = hmaPoint.hma (data r ! (length cs - 1))"
    using w by simp
  then have "currentHMA (cachedResult entry) = hmaPoint.hma (data r ! (length (data r) - 1))"
    using r e w by (simp add: cachedResult_def)
  moreover have "hmaPoint.hma (data r ! (length (data r) - 1)) =
      Some (spec_HMA (map candle.close cs) (length cs - 1))"
    using p r l by simp
  ultimately show ?thesis
    using pt r w e by (simp add: cachedResult_def HMA_PERIOD_def)
qed

text \<open>The entry that the first example call writes, and what the two calls return.\<close>

lemma firstCall_entry:
  "\<exists>w. cacheAfter (firstCall price) = emptyCache(exampleSymbol \<mapsto>
          \<lparr>candles = w, lastUpdate = 1699951800000, symbol = exampleSymbol,
           isLiveMonitoring = False\<rparr>) \<and>
       length w = 61 \<and>
       (\<forall>i<61. candle.timestamp (w ! i) = 1699933500 + 300 * int i \<and>
                candle.close (w ! i) = price i \<and>
                candleWithHMA.hma (w ! i) =
                  (if i < 54 then None else Some (spec_HMA (map price [0..<61]) i)))"
proof -
  from firstCall_facts
  obtain r w where r: "calculateHMAFromCandles (exampleCandles 61 price) 1699951799999 = Inr r"
    and st: "stored (exampleCandles 61 price) r w"
    and c: "cacheAfter (firstCall price) = emptyCache(exampleSymbol \<mapsto>
          \<lparr>candles = w, lastUpdate = 1699951800000, symbol = exampleSymbol,
           isLiveMonitoring = False\<rparr>)"
    by blast
  have "55 \<le> length (exampleCandles 61 price)" by (simp add: length_example)
  from calculateHMAFromCandles_spec[OF this, of 1699951799999] r
  have p: "\<forall>j<61. hmaPoint.hma (data r ! j) = Some (spec_HMA (map price [0..<61]) j)"
    by (auto simp: length_example closes_example)
  have l: "length w = 61"
    and q: "\<forall>j<61. candle.truncate (w ! j) = exampleCandles 61 price ! j \<and>
         candleWithHMA.hma (w ! j) = (if j < 54 then None else hmaPoint.hma (data r ! j))"
    using st by (simp_all add: stored_def length_example)
  have "\<forall>i<61. candle.timestamp (w ! i) = 1699933500 + 300 * int i \<and>
                candle.close (w ! i) = price i \<and>
                candleWithHMA.hma (w ! i) =
                  (if i < 54 then None else Some (spec_HMA (map price [0..<61]) i))"
  proof (intro allI impI)
    fix i :: nat assume i: "i < 61"
    then have "candle.truncate (w ! i) = exampleCandles 61 price ! i" using q by simp
    then have "candle.timestamp (w ! i) = candle.timestamp (exampleCandles 61 price ! i)"
        "candle.close (w ! i) = candle.close (exampleCandles 61 price ! i)"
      using truncate_fields by blast+
    then show "candle.timestamp (w ! i) = 1699933500 + 300 * int i \<and>
                candle.close (w ! i) = price i \<and>
                candleWithHMA.hma (w ! i) =
                  (if i < 54 then None else Some (spec_HMA (map price [0..<61]) i))"
      using i p q example_candle_nth[of i 61 price] by simp
  qed
  then show ?thesis using c l by blast
qed

lemma example_calls:
  assumes "ms < 300000" "i < 61"
  shows "fetchCalls (firstCall price) = 1 \<and>
         hmaOf (result (firstCall price)) i = Inr (Some (spec_HMA (map price [0..<61]) i)) \<and>
         currentHMAOf (result (firstCall price)) =
           Inr (Some (orZero (Some (spec_HMA (map price [0..<61]) 60)))) \<and>
         fetchCalls (laterCall price ms answer) = 0 \<and>
         hmaOf (result (laterCall price ms answer)) i =
           Inr (if i < 54 then None else Some (spec_HMA (map price [0..<61]) i)) \<and>
         currentHMAOf (result (laterCall price ms answer)) =
           Inr (Some (spec_HMA (map price [0..<61]) 60))"
proof -
  from laterCall_fresh[OF assms(1), of price answer]
  obtain r w where r: "calculateHMAFromCandles (exampleCandles 61 price) 1699951799999 = Inr r"
    and st: "stored (exampleCandles 61 price) r w"
    and f: "result (firstCall price) = Inr r"
    and l: "result (laterCall price ms answer) =
       Inr (cachedResult \<lparr>candles = w, lastUpdate = 1699951800000, symbol = exampleSymbol,
           isLiveMonitoring = False\<rparr>)"
      "fetchCalls (laterCall price ms answer) = 0"
    by auto
  have fc: "fetchCalls (firstCall price) = 1" using firstCall_facts by blast
  have "55 \<le> length (exampleCandles 61 price)" by (simp add: length_example)
  from calculateHMAFromCandles_spec[OF this, of 1699951799999] r
  have d: "length (data r) = 61"
      "currentHMA r = Some (orZero (Some (spec_HMA (map price [0..<61]) 60)))"
    and p: "\<forall>j<61. hmaPoint.hma (data r ! j) = Some (spec_HMA (map price [0..<61]) j)"
    by (auto simp: length_example closes_example)
  have w: "length w = 61"
    and q: "\<forall>j<61. candleWithHMA.hma (w ! j) = (if j < 54 then None else hmaPoint.hma (data r ! j))"
    using st by (simp_all add: stored_def length_example)
  have a: "hmaOf (result (firstCall price)) i = Inr (Some (spec_HMA (map price [0..<61]) i))"
    using f d p assms(2) by (simp add: hmaOf_def hmaAt_def)
  have b: "currentHMAOf (result (firstCall price)) =
           Inr (Some (orZero (Some (spec_HMA (map price [0..<61]) 60))))"
    using f d by (simp add: currentHMAOf_def)
  have c: "hmaOf (result (laterCall price ms answer)) i =
           Inr (if i < 54 then None else Some (spec_HMA (map price [0..<61]) i))"
    using l w q p assms(2) by (simp add: hmaOf_def hmaAt_def cachedResult_def cachedPoint_def)
  have "candleWithHMA.hma (w ! 60) = Some (spec_HMA (map price [0..<61]) 60)"
    using q p by simp
  then have e: "currentHMAOf (result (laterCall price ms answer)) =
           Inr (Some (spec_HMA (map price [0..<61]) 60))"
    using l w by (simp add: currentHMAOf_def cachedResult_def)
  show ?thesis using fc a b l(2) c e by simp
qed

text \<open>
  Claim C2, as the code has it. Let a call of \<open>fetchAndCalculateHMA\<close> have fetched,
  computed the result \<open>r1\<close> and written the entry of the symbol, and let a later call
  find that entry less than 5 minutes after it was written. Then the later call makes no
  fetch, leaves the cache as it is, and returns a result with the period of \<open>r1\<close>, as
  many points, the timestamp and the close of every point of \<open>r1\<close>, the \<open>hma\<close> of \<open>r1\<close> at
  every index from 54 on and \<open>null\<close> at every index below 54, and the time of the write
  as \<open>lastUpdate\<close>. Its \<open>currentHMA\<close> is the \<open>hma\<close> of the last point of \<open>r1\<close>, which is
  the \<open>currentHMA\<close> of \<open>r1\<close> whenever it is not \<open>NaN\<close>. The result is an \<open>hmaResult\<close> like
  the computed one: it has no field that tags it as served from the cache.
\<close>

theorem cached_result_of_compute:
  assumes "fetchAndCalculateHMA e1 cache1 symb tok1 = out1"
    and "fetchCalls out1 = 1" and "result out1 = Inr r1"
    and "cache2 symb = cacheAfter out1 symb"
    and "now e2 - tStore e1 < 5 * 60 * 1000"
  shows "\<exists>r2. fetchAndCalculateHMA e2 cache2 symb tok2 =
             \<lparr>result = Inr r2, cacheAfter = cache2, fetchCalls = 0\<rparr> \<and>
         period r2 = period r1 \<and>
         length (data r2) = length (data r1) \<and>
         (\<forall>i<length (data r1).
            hmaPoint.timestamp (data r2 ! i) = hmaPoint.timestamp (data r1 ! i) \<and>
            hmaPoint.close (data r2 ! i) = hmaPoint.close (data r1 ! i) \<and>
            hmaPoint.hma (data r2 ! i) = (if i < 54 then None else hmaPoint.hma (data r1 ! i))) \<and>
         currentHMA r2 = hmaPoint.hma (data r1 ! (length (data r1) - 1)) \<and>
         (hmaPoint.hma (data r1 ! (length (data r1) - 1)) \<noteq> Some NaN \<longrightarrow>
            currentHMA r2 = currentHMA r1) \<and>
         hmaResult.lastUpdate r2 = tStore e1"
proof -
  have "out1 = fetchAndStore e1 cache1 symb tok1"
    using assms(1,2) by (auto simp: fetchAndCalculateHMA_fresh split: if_splits)
  with assms(3) fetchAndStore_cases[of e1 cache1 symb tok1]
  obtain h w where l: "60 \<le> length (convertAndFilterTradingHoursCandles (tza e1) h)"
    and c: "calculateHMAFromCandles (convertAndFilterTradingHoursCandles (tza e1) h) (tCalc e1) = Inr r1"
    and st: "stored (convertAndFilterTradingHoursCandles (tza e1) h) r1 w"
    and o: "out1 = \<lparr>result = Inr r1,
              cacheAfter = cache1(symb \<mapsto>
                \<lparr>candles = w, lastUpdate = tStore e1, symbol = symb, isLiveMonitoring = False\<rparr>),
              fetchCalls = 1\<rparr>"
    by auto
  let ?entry = "\<lparr>candles = w, lastUpdate = tStore e1, symbol = symb, isLiveMonitoring = False\<rparr>"
  have e: "cache2 symb = Some ?entry" using assms(4) o by simp
  have "spec_fresh cache2 symb (now e2)"
    using stored_fresh[where cache=cache2 and symb=symb, OF st l e] assms(5) by simp
  then have f: "fetchAndCalculateHMA e2 cache2 symb tok2 =
      \<lparr>result = Inr (cachedResult ?entry), cacheAfter = cache2, fetchCalls = 0\<rparr>"
    using e by (simp add: fetchAndCalculateHMA_fresh)
  from cachedResult_stored[OF c st l, of ?entry]
  have k: "period (cachedResult ?entry) = period r1"
      "length (data (cachedResult ?entry)) = length (data r1)"
      "\<forall>i<length (data r1).
            hmaPoint.timestamp (data (cachedResult ?entry) ! i) = hmaPoint.timestamp (data r1 ! i) \<and>
            hmaPoint.close (data (cachedResult ?entry) ! i) = hmaPoint.close (data r1 ! i) \<and>
            hmaPoint.hma (data (cachedResult ?entry) ! i) =
              (if i < 54 then None else hmaPoint.hma (data r1 ! i))"
      "currentHMA (cachedResult ?entry) = hmaPoint.hma (data r1 ! (length (data r1) - 1))"
      "hmaResult.lastUpdate (cachedResult ?entry) = tStore e1"
    and z: "currentHMA r1 = Some (orZero (hmaPoint.hma (data r1 ! (length (data r1) - 1))))"
      "hmaPoint.hma (data r1 ! (length (data r1) - 1)) \<noteq> None"
    by simp_all
  have "hmaPoint.hma (data r1 ! (length (data r1) - 1)) \<noteq> Some NaN \<longrightarrow>
            currentHMA (cachedResult ?entry) = currentHMA r1"
  proof
    assume n: "hmaPoint.hma (data r1 ! (length (data r1) - 1)) \<noteq> Some NaN"
    obtain v where "hmaPoint.hma (data r1 ! (length (data r1) - 1)) = Some v"
      using z(2) by blast
    then show "currentHMA (cachedResult ?entry) = currentHMA r1"
      using n k(4) z by (simp add: orZero_Some)
  qed
  then show ?thesis using f k by blast
qed

text \<open>
  The claim as stated asks for the same \<open>hma\<close> at the warm-up indices and for the same
  \<open>currentHMA\<close>. After the first call on the ramp, the call one second later is served
  from the cache, and its point 0 has \<open>hma = null\<close> where the first call returned 0. When
  the last candle of the ramp has come without its close, the first call returns
  \<open>currentHMA = 0\<close> and the call one second later returns \<open>NaN\<close>.
\<close>

theorem cached_warmup_null_counterexample:
  "fetchCalls (firstCall rampPrice) = 1 \<and>
   hmaOf (result (firstCall rampPrice)) 0 = Inr (Some 0) \<and>
   fetchCalls (laterCall rampPrice 1000 (Rejected ''unused'')) = 0 \<and>
   hmaOf (result (laterCall rampPrice 1000 (Rejected ''unused''))) 0 = Inr None \<and>
   fetchCalls (firstCall gapPrice) = 1 \<and>
   currentHMAOf (result (firstCall gapPrice)) = Inr (Some 0) \<and>
   fetchCalls (laterCall gapPrice 1000 (Rejected ''unused'')) = 0 \<and>
   currentHMAOf (result (laterCall gapPrice 1000 (Rejected ''unused''))) = Inr (Some NaN)"
  using example_calls[of 1000 0 rampPrice "Rejected ''unused''"]
    example_calls[of 1000 60 gapPrice "Rejected ''unused''"]
  by (simp add: spec_HMA_def gap_smoothed_60 orZero_Some)

theorem cached_result_of_compute_witness:
  "fetchCalls (firstCall rampPrice) = 1 \<and>
   (\<exists>r1 r2. result (firstCall rampPrice) = Inr r1 \<and>
      laterCall rampPrice 299000 (Rejected ''unused'') =
        \<lparr>result = Inr r2, cacheAfter = cacheAfter (firstCall rampPrice), fetchCalls = 0\<rparr> \<and>
      period r2 = period r1 \<and> length (data r2) = length (data r1) \<and>
      hmaPoint.hma (data r1 ! 60) = Some (Fin (476 / 3)) \<and>
      hmaPoint.hma (data r2 ! 0) = None \<and>
      hmaPoint.hma (data r2 ! 60) = hmaPoint.hma (data r1 ! 60) \<and>
      hmaPoint.close (data r2 ! 60) = hmaPoint.close (data r1 ! 60) \<and>
      currentHMA r2 = hmaPoint.hma (data r1 ! 60) \<and>
      currentHMA r2 = currentHMA r1 \<and>
      hmaResult.lastUpdate r2 = 1699951800000)"
proof -
  from firstCall_facts
  obtain r1 where f: "result (firstCall rampPrice) = Inr r1" "fetchCalls (firstCall rampPrice) = 1"
    and c: "calculateHMAFromCandles (exampleCandles 61 rampPrice) 1699951799999 = Inr r1"
    by auto
  have "55 \<le> length (exampleCandles 61 rampPrice)" by (simp add: length_example)
  from calculateHMAFromCandles_spec[OF this, of 1699951799999] c
  have d: "length (data r1) = 61"
    and v: "hmaPoint.hma (data r1 ! 60) = Some (Fin (476 / 3))"
    by (auto simp: length_example closes_example spec_HMA_def ramp_smoothed_60)
  let ?e1 = "exampleEnv 1699951799749 (okResponse 61 rampPrice)"
  let ?e2 = "exampleEnv (1699951800000 + 299000) (Rejected ''unused'')"
  have t: "now ?e2 - tStore ?e1 < 5 * 60 * 1000" by (simp add: exampleEnv_def)
  have o: "fetchAndCalculateHMA ?e1 emptyCache exampleSymbol exampleToken = firstCall rampPrice"
    by (simp add: firstCall_def)
  from cached_result_of_compute[where ?e1.0="?e1" and ?cache1.0=emptyCache and symb=exampleSymbol
      and ?tok1.0=exampleToken and ?out1.0="firstCall rampPrice" and ?r1.0=r1
      and ?cache2.0="cacheAfter (firstCall rampPrice)" and ?e2.0="?e2" and ?tok2.0=exampleToken,
      OF o f(2) f(1) refl t]
  obtain r2 where r2: "laterCall rampPrice 299000 (Rejected ''unused'') =
        \<lparr>result = Inr r2, cacheAfter = cacheAfter (firstCall rampPrice), fetchCalls = 0\<rparr>"
      "period r2 = period r1" "length (data r2) = length (data r1)"
      "\<forall>i<61.
            hmaPoint.timestamp (data r2 ! i) = hmaPoint.timestamp (data r1 ! i) \<and>
            hmaPoint.close (data r2 ! i) = hmaPoint.close (data r1 ! i) \<and>
            hmaPoint.hma (data r2 ! i) = (if i < 54 then None else hmaPoint.hma (data r1 ! i))"
      "currentHMA r2 = hmaPoint.hma (data r1 ! 60)"
      "hmaPoint.hma (data r1 ! 60) \<noteq> Some NaN \<longrightarrow> currentHMA r2 = currentHMA r1"
      "hmaResult.lastUpdate r2 = 1699951800000"
    unfolding d by (auto simp: laterCall_def exampleEnv_def)
  have "hmaPoint.hma (data r2 ! 0) = None"
    "hmaPoint.hma (data r2 ! 60) = hmaPoint.hma (data r1 ! 60)"
    "hmaPoint.close (data r2 ! 60) = hmaPoint.close (data r1 ! 60)"
    using r2(4) by simp_all
  moreover have "currentHMA r2 = currentHMA r1" using r2(6) v by simp
  ultimately show ?thesis using f v r2 by blast
qed

text \<open>
  Claim C4. For an entry of the requested symbol that holds at least 60 candles, a call
  before \<open>lastUpdate + 5 minutes\<close> makes no fetch, leaves the cache as it is and returns
  the cached result: period 55, one point per stored candle with the candle's timestamp,
  close and \<open>hma\<close>, the \<open>hma\<close> of the last stored candle as \<open>currentHMA\<close>, and the entry's
  \<open>lastUpdate\<close>. A call at or after \<open>lastUpdate + 5 minutes\<close> takes the fetching path,
  with one call of \<open>fetchHistoricalData\<close>. An entry with fewer than 60 candles sends
  every call to the fetching path, whatever its age. On the fetching path, a history
  with at least 60 candles in trading hours is computed anew: the call returns what
  \<open>calculateHMAFromCandles\<close> gives for these candles at the time of the call, and
  replaces the entry of the symbol by one written at that time.
\<close>

theorem cache_served_iff_fresh:
  assumes "cache symb = Some entry"
  shows "(60 \<le> length (cacheEntry.candles entry) \<and>
          now e < cacheEntry.lastUpdate entry + 5 * 60 * 1000 \<longrightarrow>
            fetchAndCalculateHMA e cache symb tok =
              \<lparr>result = Inr
                 \<lparr>period = 55,
                  data = map (\<lambda>c. \<lparr>hmaPoint.timestamp = candle.timestamp c,
                                   close = candle.close c, hma = candleWithHMA.hma c\<rparr>)
                           (cacheEntry.candles entry),
                  currentHMA = candleWithHMA.hma
                    (cacheEntry.candles entry ! (length (cacheEntry.candles entry) - 1)),
                  lastUpdate = cacheEntry.lastUpdate entry\<rparr>,
               cacheAfter = cache, fetchCalls = 0\<rparr>) \<and>
         (60 \<le> length (cacheEntry.candles entry) \<and>
          cacheEntry.lastUpdate entry + 5 * 60 * 1000 \<le> now e \<longrightarrow>
            fetchAndCalculateHMA e cache symb tok = fetchAndStore e cache symb tok \<and>
            fetchCalls (fetchAndCalculateHMA e cache symb tok) = 1) \<and>
         (length (cacheEntry.candles entry) < 60 \<longrightarrow>
            fetchAndCalculateHMA e cache symb tok = fetchAndStore e cache symb tok \<and>
            fetchCalls (fetchAndCalculateHMA e cache symb tok) = 1) \<and>
         (length (cacheEntry.candles entry) < 60 \<or>
          cacheEntry.lastUpdate entry + 5 * 60 * 1000 \<le> now e \<longrightarrow>
            (\<forall>h. fetchHistoricalData tok (http e) = Inr h \<and> h \<noteq> [] \<and>
                 60 \<le> length (convertAndFilterTradingHoursCandles (tza e) h) \<longrightarrow>
               result (fetchAndCalculateHMA e cache symb tok) =
                 calculateHMAFromCandles (convertAndFilterTradingHoursCandles (tza e) h) (tCalc e) \<and>
               (\<exists>w. length w = length (convertAndFilterTradingHoursCandles (tza e) h) \<and>
                    cacheAfter (fetchAndCalculateHMA e cache symb tok) =
                      cache(symb \<mapsto> \<lparr>candles = w, lastUpdate = tStore e, symbol = symb,
                                      isLiveMonitoring = False\<rparr>))))"
proof -
  have hit: "60 \<le> length (cacheEntry.candles entry) \<and>
          now e < cacheEntry.lastUpdate entry + 5 * 60 * 1000 \<longrightarrow>
            fetchAndCalculateHMA e cache symb tok =
              \<lparr>result = Inr
                 \<lparr>period = 55,
                  data = map (\<lambda>c. \<lparr>hmaPoint.timestamp = candle.timestamp c,
                                   close = candle.close c, hma = candleWithHMA.hma c\<rparr>)
                           (cacheEntry.candles entry),
                  currentHMA = candleWithHMA.hma
                    (cacheEntry.candles entry ! (length (cacheEntry.candles entry) - 1)),
                  lastUpdate = cacheEntry.lastUpdate entry\<rparr>,
               cacheAfter = cache, fetchCalls = 0\<rparr>"
    using assms
    by (auto simp: fetchAndCalculateHMA_def usable_def REQUIRED_CANDLES_def cachedResult_def
          cachedPoint_def HMA_PERIOD_def)
  have miss: "fetchAndCalculateHMA e cache symb tok = fetchAndStore e cache symb tok"
    if "length (cacheEntry.candles entry) < 60 \<or>
          cacheEntry.lastUpdate entry + 5 * 60 * 1000 \<le> now e"
    using assms that by (auto simp: fetchAndCalculateHMA_def usable_def REQUIRED_CANDLES_def)
  have fresh: "result (fetchAndStore e cache symb tok) =
                 calculateHMAFromCandles (convertAndFilterTradingHoursCandles (tza e) h) (tCalc e) \<and>
               (\<exists>w. length w = length (convertAndFilterTradingHoursCandles (tza e) h) \<and>
                    cacheAfter (fetchAndStore e cache symb tok) =
                      cache(symb \<mapsto> \<lparr>candles = w, lastUpdate = tStore e, symbol = symb,
                                      isLiveMonitoring = False\<rparr>))"
    if h: "fetchHistoricalData tok (http e) = Inr h" "h \<noteq> []"
      "60 \<le> length (convertAndFilterTradingHoursCandles (tza e) h)" for h
  proof -
    from fetchAndStore_success[OF h, of cache symb]
    obtain r w where r: "calculateHMAFromCandles (convertAndFilterTradingHoursCandles (tza e) h) (tCalc e) = Inr r"
      and st: "stored (convertAndFilterTradingHoursCandles (tza e) h) r w"
      and eq: "fetchAndStore e cache symb tok =
             \<lparr>result = Inr r,
              cacheAfter = cache(symb \<mapsto>
                \<lparr>candles = w, lastUpdate = tStore e, symbol = symb, isLiveMonitoring = False\<rparr>),
              fetchCalls = 1\<rparr>"
      by blast
    have "result (fetchAndStore e cache symb tok) = Inr r" by (subst eq) simp
    moreover have "cacheAfter (fetchAndStore e cache symb tok) = cache(symb \<mapsto>
                \<lparr>candles = w, lastUpdate = tStore e, symbol = symb, isLiveMonitoring = False\<rparr>)"
      by (subst eq) simp
    moreover have "length w = length (convertAndFilterTradingHoursCandles (tza e) h)"
      using st by (simp add: stored_def)
    ultimately show ?thesis using r by auto
  qed
  show ?thesis
    using hit miss fresh by (auto simp: fetchCalls_fetchAndStore)
qed

theorem cache_served_iff_fresh_witness:
  "(\<exists>r. laterCall rampPrice 299000 (okResponse 61 rampPrice) =
          \<lparr>result = Inr r, cacheAfter = cacheAfter (firstCall rampPrice), fetchCalls = 0\<rparr> \<and>
        period r = 55 \<and> length (data r) = 61 \<and>
        hmaPoint.timestamp (data r ! 60) = 1699951500 \<and>
        hmaPoint.close (data r ! 60) = Fin 160 \<and>
        hmaPoint.hma (data r ! 0) = None \<and>
        hmaPoint.hma (data r ! 60) = Some (Fin (476 / 3)) \<and>
        currentHMA r = Some (Fin (476 / 3)) \<and>
        hmaResult.lastUpdate r = 1699951800000) \<and>
   fetchCalls (laterCall rampPrice 301000 (okResponse 61 rampPrice)) = 1 \<and>
   (\<exists>r w. result (laterCall rampPrice 301000 (okResponse 61 rampPrice)) = Inr r \<and>
        hmaResult.lastUpdate r = 1699952101250 \<and>
        cacheAfter (laterCall rampPrice 301000 (okResponse 61 rampPrice)) =
          (cacheAfter (firstCall rampPrice))(exampleSymbol \<mapsto>
            \<lparr>candles = w, lastUpdate = 1699952101251, symbol = exampleSymbol,
             isLiveMonitoring = False\<rparr>)) \<and>
   fetchCalls (fetchAndCalculateHMA (exampleEnv 1699951800000 (okResponse 61 rampPrice)) shortCache
     exampleSymbol exampleToken) = 1"
proof -
  from firstCall_entry[of rampPrice]
  obtain w where c: "cacheAfter (firstCall rampPrice) = emptyCache(exampleSymbol \<mapsto>
          \<lparr>candles = w, lastUpdate = 1699951800000, symbol = exampleSymbol,
           isLiveMonitoring = False\<rparr>)"
    and l: "length w = 61"
    and q: "\<forall>i<61. candle.timestamp (w ! i) = 1699933500 + 300 * int i \<and>
                candle.close (w ! i) = rampPrice i \<and>
                candleWithHMA.hma (w ! i) =
                  (if i < 54 then None else Some (spec_HMA (map rampPrice [0..<61]) i))"
    by blast
  let ?entry = "\<lparr>candles = w, lastUpdate = 1699951800000, symbol = exampleSymbol,
           isLiveMonitoring = False\<rparr>"
  let ?r = "\<lparr>period = 55,
             data = map (\<lambda>c. \<lparr>hmaPoint.timestamp = candle.timestamp c,
                              close = candle.close c, hma = candleWithHMA.hma c\<rparr>) w,
             currentHMA = candleWithHMA.hma (w ! 60),
             lastUpdate = 1699951800000\<rparr>"
  have e: "cacheAfter (firstCall rampPrice) exampleSymbol = Some ?entry" by (simp add: c)
  have a: "laterCall rampPrice 299000 (okResponse 61 rampPrice) =
      \<lparr>result = Inr ?r, cacheAfter = cacheAfter (firstCall rampPrice), fetchCalls = 0\<rparr>"
    using cache_served_iff_fresh[where cache="cacheAfter (firstCall rampPrice)" and symb=exampleSymbol
        and e="exampleEnv (1699951800000 + 299000) (okResponse 61 rampPrice)" and tok=exampleToken, OF e] l
    by (simp add: laterCall_def exampleEnv_def)
  have q0: "candleWithHMA.hma (w ! 0) = None" using q by simp
  have q60: "candle.timestamp (w ! 60) = 1699951500" "candle.close (w ! 60) = Fin 160"
      "candleWithHMA.hma (w ! 60) = Some (Fin (476 / 3))"
    using q by (simp_all add: rampPrice_def spec_HMA_def ramp_smoothed_60)
  have v: "period ?r = 55" "length (data ?r) = 61"
      "hmaPoint.timestamp (data ?r ! 60) = 1699951500"
      "hmaPoint.close (data ?r ! 60) = Fin 160"
      "hmaPoint.hma (data ?r ! 0) = None"
      "hmaPoint.hma (data ?r ! 60) = Some (Fin (476 / 3))"
      "currentHMA ?r = Some (Fin (476 / 3))"
      "hmaResult.lastUpdate ?r = 1699951800000"
    using l q0 q60 by simp_all
  have b: "fetchCalls (laterCall rampPrice 301000 (okResponse 61 rampPrice)) = 1"
    using cache_served_iff_fresh[where cache="cacheAfter (firstCall rampPrice)" and symb=exampleSymbol
        and e="exampleEnv (1699951800000 + 301000) (okResponse 61 rampPrice)" and tok=exampleToken, OF e] l
    by (simp add: laterCall_def exampleEnv_def fetchCalls_fetchAndStore)
  have h: "fetchHistoricalData exampleToken (okResponse 61 rampPrice) = Inr (exampleRaw 61 rampPrice)"
      "exampleRaw 61 rampPrice \<noteq> []"
      "convertAndFilterTradingHoursCandles ist (exampleRaw 61 rampPrice) = exampleCandles 61 rampPrice"
    by (simp_all add: fetch_ok exampleRaw_nonempty convert_example)
  have "55 \<le> length (exampleCandles 61 rampPrice)" by (simp add: length_example)
  from calculateHMAFromCandles_spec[OF this, of 1699952101250]
  obtain r' where r': "calculateHMAFromCandles (exampleCandles 61 rampPrice) 1699952101250 = Inr r'"
      "hmaResult.lastUpdate r' = 1699952101250"
    by blast
  have n: "result (laterCall rampPrice 301000 (okResponse 61 rampPrice)) = Inr r' \<and>
      (\<exists>w. cacheAfter (laterCall rampPrice 301000 (okResponse 61 rampPrice)) =
          (cacheAfter (firstCall rampPrice))(exampleSymbol \<mapsto>
            \<lparr>candles = w, lastUpdate = 1699952101251, symbol = exampleSymbol,
             isLiveMonitoring = False\<rparr>))"
    using cache_served_iff_fresh[where cache="cacheAfter (firstCall rampPrice)" and symb=exampleSymbol
        and e="exampleEnv (1699951800000 + 301000) (okResponse 61 rampPrice)" and tok=exampleToken, OF e] l h r'
    by (auto simp: laterCall_def exampleEnv_def length_example)
  have s: "shortCache exampleSymbol = Some \<lparr>candles = [], lastUpdate = 1699951800000, symbol = exampleSymbol,
        isLiveMonitoring = False\<rparr>"
    by (simp add: shortCache_def)
  have d: "fetchCalls (fetchAndCalculateHMA (exampleEnv 1699951800000 (okResponse 61 rampPrice)) shortCache
     exampleSymbol exampleToken) = 1"
    using cache_served_iff_fresh[where cache=shortCache and symb=exampleSymbol
        and e="exampleEnv 1699951800000 (okResponse 61 rampPrice)" and tok=exampleToken, OF s]
    by (simp add: fetchCalls_fetchAndStore)
  show ?thesis using a v b n r'(2) d by blast
qed

section \<open>Eviction\<close>

text \<open>
  Claim C5, as the code has it. For a non-empty symbol \<open>clearCache\<close> leaves no entry
  for the symbol, leaves the entry of every other symbol as it is, and returns \<open>true\<close>,
  whether or not there was an entry; the next \<open>fetchAndCalculateHMA\<close> for the symbol
  fetches. For the empty symbol it changes nothing and returns \<open>false\<close>.
\<close>

theorem clearCache_effect:
  "(truthy symb \<longrightarrow>
      fst (clearCache cache symb) symb = None \<and>
      (\<forall>other. other \<noteq> symb \<longrightarrow> fst (clearCache cache symb) other = cache other) \<and>
      snd (clearCache cache symb) = True \<and>
      fetchCalls (fetchAndCalculateHMA e (fst (clearCache cache symb)) symb tok) = 1) \<and>
   (\<not> truthy symb \<longrightarrow> clearCache cache symb = (cache, False))"
  by (simp add: clearCache_def fetchAndCalculateHMA_def fetchCalls_fetchAndStore)

text \<open>
  The claim as stated has \<open>false\<close> returned when the symbol had no entry. On the empty
  cache \<open>clearCache\<close> returns \<open>true\<close>, and the cache is as before.
\<close>

theorem clearCache_true_on_absent_counterexample:
  "emptyCache exampleSymbol = None \<and> clearCache emptyCache exampleSymbol = (emptyCache, True)"
  by (simp add: clearCache_def emptyCache_def exampleSymbol_def truthy_def)

theorem clearCache_effect_witness:
  "truthy exampleSymbol \<and>
   fetchCalls (laterCall rampPrice 1000 (okResponse 61 rampPrice)) = 0 \<and>
   fst (clearCache (cacheAfter (firstCall rampPrice)) exampleSymbol) exampleSymbol = None \<and>
   snd (clearCache (cacheAfter (firstCall rampPrice)) exampleSymbol) = True \<and>
   fetchCalls (fetchAndCalculateHMA (exampleEnv (1699951800000 + 1000) (okResponse 61 rampPrice))
     (fst (clearCache (cacheAfter (firstCall rampPrice)) exampleSymbol)) exampleSymbol exampleToken) = 1 \<and>
   clearCache (cacheAfter (firstCall rampPrice)) [] = (cacheAfter (firstCall rampPrice), False)"
proof -
  have t: "truthy exampleSymbol" by (simp add: truthy_def exampleSymbol_def)
  have n: "\<not> truthy []" by (simp add: truthy_def)
  have h: "fetchCalls (laterCall rampPrice 1000 (okResponse 61 rampPrice)) = 0"
    using laterCall_fresh[where ms=1000 and price=rampPrice and answer="okResponse 61 rampPrice"] by auto
  show ?thesis
    using clearCache_effect[of exampleSymbol "cacheAfter (firstCall rampPrice)"
            "exampleEnv (1699951800000 + 1000) (okResponse 61 rampPrice)" exampleToken]
      clearCache_effect[of "[]" "cacheAfter (firstCall rampPrice)"
            "exampleEnv (1699951800000 + 1000) (okResponse 61 rampPrice)" exampleToken] t n h
    by simp
qed

section \<open>Failures\<close>

lemma failure_keeps_cache:
  "result (fetchAndCalculateHMA e cache symb tok) = Inl err \<Longrightarrow>
     cacheAfter (fetchAndCalculateHMA e cache symb tok) = cache"
  using fetchAndStore_cases[of e cache symb tok]
  by (auto simp: fetchAndCalculateHMA_fresh split: if_splits)

text \<open>
  Claim C7. When the cache does not answer: if \<open>fetchHistoricalData\<close> throws, the call
  throws the same error; if the history is empty, or fewer than 60 candles are left in
  trading hours, the call throws; in each case after exactly one call of
  \<open>fetchHistoricalData\<close> and with the cache as it was, for every symbol. In general a
  call that throws leaves the cache as it was.
\<close>

theorem failed_fetch_leaves_cache:
  assumes "\<not> spec_fresh cache symb (now e)"
  shows "(\<forall>err. fetchHistoricalData tok (http e) = Inl err \<longrightarrow>
            fetchAndCalculateHMA e cache symb tok =
              \<lparr>result = Inl err, cacheAfter = cache, fetchCalls = 1\<rparr>) \<and>
         (fetchHistoricalData tok (http e) = Inr [] \<longrightarrow>
            fetchAndCalculateHMA e cache symb tok =
              \<lparr>result = Inl (NoHistoricalData symb), cacheAfter = cache, fetchCalls = 1\<rparr>) \<and>
         (\<forall>h. fetchHistoricalData tok (http e) = Inr h \<and> h \<noteq> [] \<and>
              length (convertAndFilterTradingHoursCandles (tza e) h) < 60 \<longrightarrow>
            fetchAndCalculateHMA e cache symb tok =
              \<lparr>result = Inl (InsufficientCandles
                  (length (convertAndFilterTradingHoursCandles (tza e) h))),
               cacheAfter = cache, fetchCalls = 1\<rparr>) \<and>
         (\<forall>err. result (fetchAndCalculateHMA e cache symb tok) = Inl err \<longrightarrow>
            cacheAfter (fetchAndCalculateHMA e cache symb tok) = cache)"
proof -
  have m: "fetchAndCalculateHMA e cache symb tok = fetchAndStore e cache symb tok"
    using assms by (simp add: fetchAndCalculateHMA_fresh)
  show ?thesis
    unfolding m
    using failure_keeps_cache[of e cache symb tok]
    by (auto simp: m fetchAndStore_def REQUIRED_CANDLES_def Let_def)
qed

lemma laterCall_stale:
  "300000 \<le> ms \<Longrightarrow> \<not> spec_fresh (cacheAfter (firstCall price)) exampleSymbol (now (exampleEnv (1699951800000 + ms) answer))"
  using firstCall_facts[of price] by (auto simp: spec_fresh_def exampleEnv_def)

theorem failed_fetch_leaves_cache_witness:
  "laterCall rampPrice 301000 (Rejected ''ECONNRESET'') =
     \<lparr>result = Inl (RequestFailed ''ECONNRESET''), cacheAfter = cacheAfter (firstCall rampPrice),
      fetchCalls = 1\<rparr> \<and>
   laterCall rampPrice 301000 errorResponse =
     \<lparr>result = Inl (FetchFailed ''Invalid token''), cacheAfter = cacheAfter (firstCall rampPrice),
      fetchCalls = 1\<rparr> \<and>
   laterCall rampPrice 301000 noDataResponse =
     \<lparr>result = Inl (NoHistoricalData exampleSymbol), cacheAfter = cacheAfter (firstCall rampPrice),
      fetchCalls = 1\<rparr> \<and>
   laterCall rampPrice 301000 (okResponse 59 rampPrice) =
     \<lparr>result = Inl (InsufficientCandles 59), cacheAfter = cacheAfter (firstCall rampPrice),
      fetchCalls = 1\<rparr>"
proof -
  have t: "truthy exampleToken" by (simp add: truthy_def exampleToken_def)
  have a: "fetchHistoricalData exampleToken (Rejected ''ECONNRESET'') = Inl (RequestFailed ''ECONNRESET'')"
    using t by (simp add: fetchHistoricalData_def)
  have b: "fetchHistoricalData exampleToken errorResponse = Inl (FetchFailed ''Invalid token'')"
    using t by (simp add: fetchHistoricalData_def errorResponse_def truthy_def)
  have c: "fetchHistoricalData exampleToken noDataResponse = Inr []"
    using t by (simp add: fetchHistoricalData_def noDataResponse_def)
  have d: "fetchHistoricalData exampleToken (okResponse 59 rampPrice) = Inr (exampleRaw 59 rampPrice)"
    "exampleRaw 59 rampPrice \<noteq> []"
    "length (convertAndFilterTradingHoursCandles ist (exampleRaw 59 rampPrice)) = 59"
    by (simp_all add: fetch_ok exampleRaw_nonempty convert_example length_example)
  have "laterCall rampPrice 301000 (Rejected ''ECONNRESET'') =
     \<lparr>result = Inl (RequestFailed ''ECONNRESET''), cacheAfter = cacheAfter (firstCall rampPrice),
      fetchCalls = 1\<rparr>"
    using failed_fetch_leaves_cache[OF laterCall_stale[where ms=301000 and price=rampPrice and answer="Rejected ''ECONNRESET''"], of exampleToken] a
    by (simp add: laterCall_def exampleEnv_def)
  moreover have "laterCall rampPrice 301000 errorResponse =
     \<lparr>result = Inl (FetchFailed ''Invalid token''), cacheAfter = cacheAfter (firstCall rampPrice),
      fetchCalls = 1\<rparr>"
    using failed_fetch_leaves_cache[OF laterCall_stale[where ms=301000 and price=rampPrice and answer=errorResponse], of exampleToken] b
    by (simp add: laterCall_def exampleEnv_def)
  moreover have "laterCall rampPrice 301000 noDataResponse =
     \<lparr>result = Inl (NoHistoricalData exampleSymbol), cacheAfter = cacheAfter (firstCall rampPrice),
      fetchCalls = 1\<rparr>"
    using failed_fetch_leaves_cache[OF laterCall_stale[where ms=301000 and price=rampPrice and answer=noDataResponse], of exampleToken] c
    by (simp add: laterCall_def exampleEnv_def)
  moreover have "laterCall rampPrice 301000 (okResponse 59 rampPrice) =
     \<lparr>result = Inl (InsufficientCandles 59), cacheAfter = cacheAfter (firstCall rampPrice),
      fetchCalls = 1\<rparr>"
    using failed_fetch_leaves_cache[OF laterCall_stale[where ms=301000 and price=rampPrice and answer="okResponse 59 rampPrice"], of exampleToken] d
    by (simp add: laterCall_def exampleEnv_def)
  ultimately show ?thesis by blast
qed

section \<open>The invariant of the cache\<close>

lemma stored_closes:
  assumes "stored cs r w"
  shows "map candle.close w = map candle.close cs"
proof (rule nth_equalityI)
  show "length (map candle.close w) = length (map candle.close cs)"
    using assms by (simp add: stored_def)
next
  fix i assume "i < length (map candle.close w)"
  then have i: "i < length cs" "i < length w" using assms by (simp_all add: stored_def)
  then have "candle.truncate (w ! i) = cs ! i" using assms by (simp add: stored_def)
  then have "candle.close (w ! i) = candle.close (cs ! i)" using truncate_fields by blast
  then show "map candle.close w ! i = map candle.close cs ! i" using i by simp
qed

lemma stored_entryInvariant:
  assumes c: "calculateHMAFromCandles cs t = Inr r" and st: "stored cs r w" and l: "60 \<le> length cs"
  shows "entryInvariant \<lparr>candles = w, lastUpdate = u, symbol = y, isLiveMonitoring = b\<rparr>"
proof -
  have "55 \<le> length cs" using l by simp
  from calculateHMAFromCandles_spec[OF this, of t] c
  have p: "\<forall>j<length cs. hmaPoint.hma (data r ! j) = Some (spec_HMA (map candle.close cs) j)"
    by auto
  have w: "length w = length cs"
    and q: "\<forall>j<length cs.
         candleWithHMA.hma (w ! j) = (if j < 54 then None else hmaPoint.hma (data r ! j))"
    using st by (simp_all add: stored_def)
  show ?thesis
    using p q w l by (simp add: entryInvariant_def stored_closes[OF st])
qed

lemma cacheAfter_cases:
  "cacheAfter (fetchAndCalculateHMA e cache y tok) = cache \<or>
   (\<exists>h r w. 60 \<le> length (convertAndFilterTradingHoursCandles (tza e) h) \<and>
        calculateHMAFromCandles (convertAndFilterTradingHoursCandles (tza e) h) (tCalc e) = Inr r \<and>
        stored (convertAndFilterTradingHoursCandles (tza e) h) r w \<and>
        cacheAfter (fetchAndCalculateHMA e cache y tok) = cache(y \<mapsto>
                \<lparr>candles = w, lastUpdate = tStore e, symbol = y, isLiveMonitoring = False\<rparr>))"
proof (cases "spec_fresh cache y (now e)")
  case True
  then show ?thesis by (simp add: fetchAndCalculateHMA_fresh)
next
  case False
  then have m: "fetchAndCalculateHMA e cache y tok = fetchAndStore e cache y tok"
    by (simp add: fetchAndCalculateHMA_fresh)
  from fetchAndStore_cases[of e cache y tok]
  show ?thesis
  proof (elim disjE exE conjE)
    fix err
    assume eq: "fetchAndStore e cache y tok = \<lparr>result = Inl err, cacheAfter = cache, fetchCalls = 1\<rparr>"
    have "cacheAfter (fetchAndStore e cache y tok) = cache" by (subst eq) simp
    then show ?thesis by (simp add: m)
  next
    fix h r w
    assume l: "60 \<le> length (convertAndFilterTradingHoursCandles (tza e) h)"
      and c: "calculateHMAFromCandles (convertAndFilterTradingHoursCandles (tza e) h) (tCalc e) = Inr r"
      and st: "stored (convertAndFilterTradingHoursCandles (tza e) h) r w"
      and eq: "fetchAndStore e cache y tok =
             \<lparr>result = Inr r,
              cacheAfter = cache(y \<mapsto>
                \<lparr>candles = w, lastUpdate = tStore e, symbol = y, isLiveMonitoring = False\<rparr>),
              fetchCalls = 1\<rparr>"
    have "cacheAfter (fetchAndStore e cache y tok) = cache(y \<mapsto>
                \<lparr>candles = w, lastUpdate = tStore e, symbol = y, isLiveMonitoring = False\<rparr>)"
      by (subst eq) simp
    then show ?thesis using l c st unfolding m by blast
  qed
qed

lemma reachable_entryInvariant:
  "reachable cache \<Longrightarrow> cache symb = Some entry \<Longrightarrow> entryInvariant entry"
proof (induction arbitrary: symb entry rule: reachable.induct)
  case initial
  then show ?case by (simp add: emptyCache_def)
next
  case (fetched cache e y tok)
  from cacheAfter_cases[of e cache y tok]
  consider "cacheAfter (fetchAndCalculateHMA e cache y tok) = cache"
    | h r w where "60 \<le> length (convertAndFilterTradingHoursCandles (tza e) h)"
        "calculateHMAFromCandles (convertAndFilterTradingHoursCandles (tza e) h) (tCalc e) = Inr r"
        "stored (convertAndFilterTradingHoursCandles (tza e) h) r w"
        "cacheAfter (fetchAndCalculateHMA e cache y tok) = cache(y \<mapsto>
                \<lparr>candles = w, lastUpdate = tStore e, symbol = y, isLiveMonitoring = False\<rparr>)"
    by blast
  then show ?case
  proof cases
    case 1
    then show ?thesis using fetched by simp
  next
    case 2
    show ?thesis
    proof (cases "symb = y")
      case True
      then have "entry = \<lparr>candles = w, lastUpdate = tStore e, symbol = y, isLiveMonitoring = False\<rparr>"
        using fetched.prems 2(4) by simp
      then show ?thesis using stored_entryInvariant[OF 2(2) 2(3) 2(1)] by simp
    next
      case False
      then show ?thesis using fetched 2(4) by simp
    qed
  qed
next
  case (cleared cache y)
  then show ?case by (auto simp: clearCache_def split: if_splits)
qed

text \<open>
  Claim C9. In every cache state that the module can reach, every entry holds at least 60
  candles, and \<open>calculateHMAFromCandles\<close> succeeds on its candles; the \<open>hma\<close> of its
  candle \<open>i\<close> is \<open>null\<close> for \<open>i < 54\<close> and the \<open>hma\<close> that \<open>calculateHMAFromCandles\<close> gives to
  point \<open>i\<close> for \<open>i \<ge> 54\<close>.
\<close>

theorem cache_entries_invariant:
  assumes "reachable cache" and "cache symb = Some entry"
  shows "60 \<le> length (cacheEntry.candles entry) \<and>
         (\<exists>r. calculateHMAFromCandles (cacheEntry.candles entry) t = Inr r \<and>
              (\<forall>i<length (cacheEntry.candles entry).
                 candleWithHMA.hma (cacheEntry.candles entry ! i) =
                   (if i < 54 then None else hmaPoint.hma (data r ! i))))"
proof -
  have inv: "entryInvariant entry"
    using reachable_entryInvariant[OF assms] .
  then have l: "55 \<le> length (cacheEntry.candles entry)" "60 \<le> length (cacheEntry.candles entry)"
    by (simp_all add: entryInvariant_def)
  from calculateHMAFromCandles_spec[OF l(1), of t]
  obtain r where r: "calculateHMAFromCandles (cacheEntry.candles entry) t = Inr r"
    and p: "\<forall>j<length (cacheEntry.candles entry). hmaPoint.hma (data r ! j) =
              Some (spec_HMA (map candle.close (cacheEntry.candles entry)) j)"
    by auto
  have "\<forall>i<length (cacheEntry.candles entry).
                 candleWithHMA.hma (cacheEntry.candles entry ! i) =
                   (if i < 54 then None else hmaPoint.hma (data r ! i))"
    using inv p by (simp add: entryInvariant_def)
  then show ?thesis using l r by blast
qed

theorem cache_entries_invariant_witness:
  "reachable (cacheAfter (firstCall rampPrice)) \<and>
   (\<exists>entry r. cacheAfter (firstCall rampPrice) exampleSymbol = Some entry \<and>
      length (cacheEntry.candles entry) = 61 \<and>
      calculateHMAFromCandles (cacheEntry.candles entry) 0 = Inr r \<and>
      candleWithHMA.hma (cacheEntry.candles entry ! 0) = None \<and>
      candleWithHMA.hma (cacheEntry.candles entry ! 53) = None \<and>
      candleWithHMA.hma (cacheEntry.candles entry ! 54) = hmaPoint.hma (data r ! 54) \<and>
      candleWithHMA.hma (cacheEntry.candles entry ! 60) = hmaPoint.hma (data r ! 60))"
proof -
  have re: "reachable (cacheAfter (firstCall rampPrice))"
    unfolding firstCall_def by (intro reachable.fetched reachable.initial)
  from firstCall_facts
  obtain r0 w where st: "stored (exampleCandles 61 rampPrice) r0 w"
    and c: "cacheAfter (firstCall rampPrice) = emptyCache(exampleSymbol \<mapsto>
          \<lparr>candles = w, lastUpdate = 1699951800000, symbol = exampleSymbol,
           isLiveMonitoring = False\<rparr>)"
    by blast
  let ?entry = "\<lparr>candles = w, lastUpdate = 1699951800000, symbol = exampleSymbol,
           isLiveMonitoring = False\<rparr>"
  have e: "cacheAfter (firstCall rampPrice) exampleSymbol = Some ?entry" by (simp add: c)
  have l: "length (cacheEntry.candles ?entry) = 61" using st by (simp add: stored_def length_example)
  from cache_entries_invariant[where cache="cacheAfter (firstCall rampPrice)" and symb=exampleSymbol and t=0, OF re e]
  obtain r where r: "calculateHMAFromCandles (cacheEntry.candles ?entry) 0 = Inr r"
    and p: "\<forall>i<61. candleWithHMA.hma (cacheEntry.candles ?entry ! i) =
                   (if i < 54 then None else hmaPoint.hma (data r ! i))"
    unfolding l by blast
  have "candleWithHMA.hma (cacheEntry.candles ?entry ! 0) = None"
    "candleWithHMA.hma (cacheEntry.candles ?entry ! 53) = None"
    "candleWithHMA.hma (cacheEntry.candles ?entry ! 54) = hmaPoint.hma (data r ! 54)"
    "candleWithHMA.hma (cacheEntry.candles ?entry ! 60) = hmaPoint.hma (data r ! 60)"
    using p by simp_all
  then show ?thesis using re e l r by blast
qed

end
